theory Spec2Isabelle
  imports Main
begin

section \<open>Python values: strings and exceptions\<close>

text \<open>
  A Python \<open>str\<close> is a sequence of Unicode code points, so it is modelled as a list of
  natural numbers (not as a HOL \<open>string\<close>, whose characters are bytes). The fixed
  ASCII messages of the program are written as HOL string literals and converted
  with \<open>lit\<close>.
\<close>

type_synonym pystr = "nat list"

definition lit :: "string \<Rightarrow> pystr" where
  "lit s = map of_char s"

text \<open>
  The exceptions the program can meet. A \<open>ValueError\<close> carries its message: the two
  messages raised by \<^verbatim>\<open>main.py\<close> itself are the program's own text, the messages of
  errors raised inside the standard library are those of CPython 3.11.
\<close>

datatype error = ValueError string | IndexError | KeyError | AttributeError | OverflowError

fun bind_res :: "error + 'a \<Rightarrow> ('a \<Rightarrow> error + 'b) \<Rightarrow> error + 'b" where
  "bind_res (Inl e) f = Inl e"
| "bind_res (Inr x) f = f x"

subsection \<open>Unicode digits\<close>

text \<open>
  \<open>decimal_zeros\<close> lists the code point of the digit zero of every block of Unicode
  decimal digits (general category Nd, Unicode 14.0 as shipped with CPython 3.11); each
  block holds the ten digits 0..9 in order. These are the characters matched by
  \<^verbatim>\<open>\d\<close> in a \<open>str\<close> regular expression and accepted by \<open>int()\<close>.
\<close>

definition decimal_zeros :: "nat list" where
  "decimal_zeros =
    [48, 1632, 1776, 1984, 2406, 2534, 2662, 2790, 2918, 3046, 3174, 3302, 3430, 3558,
     3664, 3792, 3872, 4160, 4240, 6112, 6160, 6470, 6608, 6784, 6800, 6992, 7088, 7232,
     7248, 42528, 43216, 43264, 43472, 43504, 43600, 44016, 65296, 66720, 68912, 69734,
     69872, 69942, 70096, 70384, 70736, 70864, 71248, 71360, 71472, 71904, 72016, 72784,
     73040, 73120, 92768, 92864, 93008, 120782, 120792, 120802, 120812, 120822, 123200,
     123632, 125264, 130032]"

definition decimal_value :: "nat \<Rightarrow> nat option" where
  "decimal_value c =
     (case List.find (\<lambda>z. z \<le> c \<and> c < z + 10) decimal_zeros of
        None \<Rightarrow> None
      | Some z \<Rightarrow> Some (c - z))"

definition isdecimal_char :: "nat \<Rightarrow> bool" where
  "isdecimal_char c = (decimal_value c \<noteq> None)"

text \<open>
  \<open>str.isdigit\<close> also accepts the characters of numeric type Digit that are not
  decimal digits (superscripts, subscripts, circled digits, ...): the inclusive ranges
  of \<open>other_digit_ranges\<close>.
\<close>

definition other_digit_ranges :: "(nat \<times> nat) list" where
  "other_digit_ranges =
    [(178, 179), (185, 185), (4969, 4977), (6618, 6618), (8304, 8304), (8308, 8313),
     (8320, 8329), (9312, 9320), (9332, 9340), (9352, 9360), (9450, 9450), (9461, 9469),
     (9471, 9471), (10102, 10110), (10112, 10120), (10122, 10130), (68160, 68163),
     (69216, 69224), (69714, 69722), (127232, 127242)]"

definition isdigit_char :: "nat \<Rightarrow> bool" where
  "isdigit_char c =
     (isdecimal_char c \<or> list_ex (\<lambda>(lo, hi). lo \<le> c \<and> c \<le> hi) other_digit_ranges)"

text \<open>\<open>str.isdigit()\<close>: every character is a digit and there is at least one.\<close>

definition isdigit :: "pystr \<Rightarrow> bool" where
  "isdigit s = (s \<noteq> [] \<and> list_all isdigit_char s)"

definition ascii_digit :: "nat \<Rightarrow> bool" where
  "ascii_digit c = (48 \<le> c \<and> c \<le> 57)"

section \<open>Fields\<close>

text \<open>
  \<open>Field\<close> holds one value and renders it with \<open>str\<close>; \<open>Name\<close>, \<open>Phone\<close> and
  \<open>Birthday\<close> objects are therefore represented by the string they hold.
  \<^verbatim>\<open>Phone.__init__\<close> raises when the text is not all digits or not of length 10.
\<close>

definition Phone :: "pystr \<Rightarrow> error + pystr" where
  "Phone v =
     (if \<not> isdigit v \<or> length v \<noteq> 10
      then Inl (ValueError ''Phone number must contain exactly 10 digits'')
      else Inr v)"

text \<open>The specification's wording of the phone rule: exactly ten ASCII digits.\<close>

definition ten_ascii_digits :: "pystr \<Rightarrow> bool" where
  "ten_ascii_digits raw = (length raw = 10 \<and> list_all ascii_digit raw)"

definition is_ascii :: "pystr \<Rightarrow> bool" where
  "is_ascii raw = list_all (\<lambda>c. c < 128) raw"

section \<open>Calendar dates\<close>

text \<open>
  \<open>datetime.date\<close>: a year, a month and a day of the proleptic Gregorian calendar,
  with \<open>MINYEAR = 1\<close> and \<open>MAXYEAR = 9999\<close>. The functions below follow CPython's
  \<^verbatim>\<open>datetime\<close> module.
\<close>

record date =
  year :: int
  month :: int
  day :: int

definition is_leap :: "int \<Rightarrow> bool" where
  "is_leap y = (y mod 4 = 0 \<and> (y mod 100 \<noteq> 0 \<or> y mod 400 = 0))"

definition days_in_month :: "int \<Rightarrow> int \<Rightarrow> int" where
  "days_in_month y m =
     (if m = 2 \<and> is_leap y then 29
      else [31, 28, 31, 30, 31, 30, 31, 31, 30, 31, 30, 31] ! nat (m - 1))"

definition days_before_year :: "int \<Rightarrow> int" where
  "days_before_year y = (y - 1) * 365 + (y - 1) div 4 - (y - 1) div 100 + (y - 1) div 400"

definition days_before_month :: "int \<Rightarrow> int \<Rightarrow> int" where
  "days_before_month y m =
     [0, 31, 59, 90, 120, 151, 181, 212, 243, 273, 304, 334] ! nat (m - 1)
       + (if m > 2 \<and> is_leap y then 1 else 0)"

text \<open>The constructor \<open>date(year, month, day)\<close> with its range checks.\<close>

definition date_new :: "int \<Rightarrow> int \<Rightarrow> int \<Rightarrow> error + date" where
  "date_new y m d =
     (if y < 1 \<or> 9999 < y then Inl (ValueError ''year is out of range'')
      else if m < 1 \<or> 12 < m then Inl (ValueError ''month must be in 1..12'')
      else if d < 1 \<or> days_in_month y m < d then Inl (ValueError ''day is out of range for month'')
      else Inr \<lparr>year = y, month = m, day = d\<rparr>)"

text \<open>The dates that \<open>date_new\<close> can build: the values a \<open>date\<close> object can have.\<close>

definition valid_date :: "date \<Rightarrow> bool" where
  "valid_date dt =
     (1 \<le> year dt \<and> year dt \<le> 9999 \<and> 1 \<le> month dt \<and> month dt \<le> 12 \<and>
      1 \<le> day dt \<and> day dt \<le> days_in_month (year dt) (month dt))"

definition toordinal :: "date \<Rightarrow> int" where
  "toordinal dt = days_before_year (year dt) + days_before_month (year dt) (month dt) + day dt"

text \<open>\<open>date.weekday()\<close>: Monday is 0, Saturday 5, Sunday 6.\<close>

definition weekday :: "date \<Rightarrow> int" where
  "weekday dt = (toordinal dt + 6) mod 7"

text \<open>\<open>a < b\<close> on dates compares (year, month, day) lexicographically.\<close>

definition date_less :: "date \<Rightarrow> date \<Rightarrow> bool" where
  "date_less a b =
     (year a < year b \<or> (year a = year b \<and>
        (month a < month b \<or> (month a = month b \<and> day a < day b))))"

text \<open>\<open>(a - b).days\<close>.\<close>

definition days_between :: "date \<Rightarrow> date \<Rightarrow> int" where
  "days_between a b = toordinal a - toordinal b"

text \<open>\<open>dt.replace(year=y)\<close> builds a new date and so repeats the range checks.\<close>

definition replace_year :: "date \<Rightarrow> int \<Rightarrow> error + date" where
  "replace_year dt y = date_new y (month dt) (day dt)"

text \<open>
  \<open>dt + timedelta(days=n)\<close> for \<open>n \<ge> 0\<close>, one calendar day at a time; leaving the
  range of \<open>date\<close> raises \<open>OverflowError\<close>.
\<close>

definition next_day :: "date \<Rightarrow> error + date" where
  "next_day dt =
     (if day dt < days_in_month (year dt) (month dt) then Inr (dt\<lparr>day := day dt + 1\<rparr>)
      else if month dt < 12 then Inr (dt\<lparr>month := month dt + 1, day := 1\<rparr>)
      else if year dt < 9999 then Inr \<lparr>year = year dt + 1, month = 1, day = 1\<rparr>
      else Inl OverflowError)"

fun add_days :: "date \<Rightarrow> nat \<Rightarrow> error + date" where
  "add_days dt 0 = Inr dt"
| "add_days dt (Suc n) = bind_res (next_day dt) (\<lambda>dt'. add_days dt' n)"

subsection \<open>Formatting: \<open>strftime("%d.%m.%Y")\<close>\<close>

fun decimal :: "nat \<Rightarrow> pystr" where
  "decimal n = (if n < 10 then [48 + n] else decimal (n div 10) @ [48 + n mod 10])"

definition pad2 :: "nat \<Rightarrow> pystr" where
  "pad2 n = (if n < 10 then 48 # decimal n else decimal n)"

text \<open>
  Day and month are zero-padded to two digits. The year is written in decimal; the C
  library of Linux does not pad it, so years below 1000 have fewer than four digits.
\<close>

definition strftime :: "date \<Rightarrow> pystr" where
  "strftime dt =
     pad2 (nat (day dt)) @ [46] @ pad2 (nat (month dt)) @ [46] @ decimal (nat (year dt))"

subsection \<open>Parsing: \<open>datetime.strptime(s, "%d.%m.%Y")\<close>\<close>

text \<open>
  CPython compiles the format into the regular expression
  \<^verbatim>\<open>(?P<d>3[0-1]|[1-2]\d|0[1-9]|[1-9]| [1-9])\.(?P<m>1[0-2]|0[1-9]|[1-9])\.(?P<Y>\d\d\d\d)\<close>
  and matches it at the start of the text. Each \<open>re_\<close> function returns the ways its
  part of the expression can match a prefix, as (matched text, rest) in the order the
  backtracking matcher tries them. \<open>[0-9]\<close> ranges are ASCII, \<^verbatim>\<open>\d\<close> is any
  Unicode decimal digit. Code points: 32 space, 46 full stop, 48..57 the digits 0..9.
\<close>

definition between :: "nat \<Rightarrow> nat \<Rightarrow> nat \<Rightarrow> bool" where
  "between lo hi c = (lo \<le> c \<and> c \<le> hi)"

fun re_d :: "pystr \<Rightarrow> (pystr \<times> pystr) list" where
  "re_d (a # b # r) =
     (if a = 51 \<and> between 48 49 b then [([a, b], r)] else []) @
     (if between 49 50 a \<and> isdecimal_char b then [([a, b], r)] else []) @
     (if a = 48 \<and> between 49 57 b then [([a, b], r)] else []) @
     (if between 49 57 a then [([a], b # r)] else []) @
     (if a = 32 \<and> between 49 57 b then [([a, b], r)] else [])"
| "re_d [a] = (if between 49 57 a then [([a], [])] else [])"
| "re_d [] = []"

fun re_m :: "pystr \<Rightarrow> (pystr \<times> pystr) list" where
  "re_m (a # b # r) =
     (if a = 49 \<and> between 48 50 b then [([a, b], r)] else []) @
     (if a = 48 \<and> between 49 57 b then [([a, b], r)] else []) @
     (if between 49 57 a then [([a], b # r)] else [])"
| "re_m [a] = (if between 49 57 a then [([a], [])] else [])"
| "re_m [] = []"

fun re_dot :: "pystr \<Rightarrow> pystr list" where
  "re_dot (c # r) = (if c = 46 then [r] else [])"
| "re_dot [] = []"

definition re_Y :: "pystr \<Rightarrow> (pystr \<times> pystr) list" where
  "re_Y s =
     (if 4 \<le> length s \<and> list_all isdecimal_char (take 4 s) then [(take 4 s, drop 4 s)]
      else [])"

text \<open>All matches of the whole expression, first choice first: (d, m, Y, unmatched rest).\<close>

definition re_dmY :: "pystr \<Rightarrow> (pystr \<times> pystr \<times> pystr \<times> pystr) list" where
  "re_dmY s =
     List.bind (re_d s) (\<lambda>(d, r1).
     List.bind (re_dot r1) (\<lambda>r2.
     List.bind (re_m r2) (\<lambda>(m, r3).
     List.bind (re_dot r3) (\<lambda>r4.
     List.bind (re_Y r4) (\<lambda>(y, r5). [(d, m, y, r5)])))))"

text \<open>
  \<open>int()\<close> on a matched group: surrounding blanks are ignored (the day may be matched
  with a leading space) and every decimal digit counts with its digit value.
\<close>

definition digit_of :: "nat \<Rightarrow> int" where
  "digit_of c = (case decimal_value c of None \<Rightarrow> 0 | Some v \<Rightarrow> int v)"

definition int_of_group :: "pystr \<Rightarrow> int" where
  "int_of_group s = foldl (\<lambda>n c. 10 * n + digit_of c) 0 (dropWhile (\<lambda>c. c = 32) s)"

text \<open>
  \<open>strptime\<close> takes the first match, requires it to cover the whole text, converts the
  groups and builds the date; here its \<open>.date()\<close> is returned.
\<close>

definition strptime :: "pystr \<Rightarrow> error + date" where
  "strptime s =
     (case re_dmY s of
        [] \<Rightarrow> Inl (ValueError ''time data does not match format'')
      | (d, m, y, rest) # _ \<Rightarrow>
          if rest \<noteq> [] then Inl (ValueError ''unconverted data remains'')
          else date_new (int_of_group y) (int_of_group m) (int_of_group d))"

text \<open>
  \<^verbatim>\<open>Birthday.__init__\<close> parses the text only to validate it, turns a \<open>ValueError\<close>
  into its own, and stores the text as given. \<^verbatim>\<open>Birthday.__str__\<close> returns the stored text.
\<close>

definition Birthday :: "pystr \<Rightarrow> error + pystr" where
  "Birthday v =
     (case strptime v of
        Inl (ValueError msg) \<Rightarrow> Inl (ValueError ''Invalid date format. Use DD.MM.YYYY'')
      | Inl e \<Rightarrow> Inl e
      | Inr dt \<Rightarrow> Inr v)"

definition Birthday_str :: "pystr \<Rightarrow> pystr" where
  "Birthday_str b = b"

section \<open>Weekend adjustment\<close>

text \<open>
  Modelled from the spec: \<open>adjust_for_weekend\<close> is imported from the module
  \<^verbatim>\<open>date_utils\<close>, which is not among the sources. The specification says: if the
  occurrence falls on Saturday, shift forward to the following Monday (+2 days); if
  Sunday, shift forward to Monday (+1 day); weekdays are unchanged.
\<close>

definition adjust_for_weekend :: "date \<Rightarrow> error + date" where
  "adjust_for_weekend dt =
     (if weekday dt = 5 then add_days dt 2
      else if weekday dt = 6 then add_days dt 1
      else Inr dt)"

section \<open>Contact records\<close>

record Record =
  name :: pystr
  phones :: "pystr list"
  birthday :: "pystr option"

text \<open>\<^verbatim>\<open>Record.__init__\<close>.\<close>

definition Record_init :: "pystr \<Rightarrow> Record" where
  "Record_init n = \<lparr>name = n, phones = [], birthday = None\<rparr>"

text \<open>
  A method that mutates the record returns the outcome together with the record as it
  is afterwards, also when it raises.
\<close>

definition add_phone :: "pystr \<Rightarrow> Record \<Rightarrow> (error + unit) \<times> Record" where
  "add_phone phone r =
     (case Phone phone of
        Inl e \<Rightarrow> (Inl e, r)
      | Inr p \<Rightarrow> (Inr (), r\<lparr>phones := phones r @ [p]\<rparr>))"

text \<open>
  \<open>find_phone\<close> returns the first phone object whose value equals the text, or \<open>None\<close>;
  the object is identified by its position in the list.
\<close>

fun first_index :: "pystr \<Rightarrow> pystr list \<Rightarrow> nat option" where
  "first_index phone [] = None"
| "first_index phone (p # ps) =
     (if p = phone then Some 0 else map_option Suc (first_index phone ps))"

definition find_phone :: "pystr \<Rightarrow> Record \<Rightarrow> nat option" where
  "find_phone phone r = first_index phone (phones r)"

definition edit_phone :: "pystr \<Rightarrow> pystr \<Rightarrow> Record \<Rightarrow> (error + unit) \<times> Record" where
  "edit_phone old_phone new_phone r =
     (case find_phone old_phone r of
        None \<Rightarrow> (Inl (ValueError ''Old phone is not exist''), r)
      | Some i \<Rightarrow>
          (case Phone new_phone of
             Inl e \<Rightarrow> (Inl e, r)
           | Inr p \<Rightarrow> (Inr (), r\<lparr>phones := (phones r)[i := p]\<rparr>)))"

text \<open>\<^verbatim>\<open>Record.add_birthday\<close>.\<close>

definition Record_add_birthday :: "pystr \<Rightarrow> Record \<Rightarrow> (error + unit) \<times> Record" where
  "Record_add_birthday b r =
     (case Birthday b of
        Inl e \<Rightarrow> (Inl e, r)
      | Inr v \<Rightarrow> (Inr (), r\<lparr>birthday := Some v\<rparr>))"

section \<open>The address book\<close>

text \<open>
  \<open>AddressBook\<close> is a \<open>UserDict\<close>: a dictionary from names to records that keeps
  insertion order. It is an association list; assigning to an existing key keeps the
  key's position, assigning to a new key appends.
\<close>

type_synonym AddressBook = "(pystr \<times> Record) list"

fun dict_set :: "pystr \<Rightarrow> Record \<Rightarrow> AddressBook \<Rightarrow> AddressBook" where
  "dict_set k v [] = [(k, v)]"
| "dict_set k v ((k', v') # kvs) =
     (if k' = k then (k, v) # kvs else (k', v') # dict_set k v kvs)"

fun dict_get :: "AddressBook \<Rightarrow> pystr \<Rightarrow> Record option" where
  "dict_get [] k = None"
| "dict_get ((k', v') # kvs) k = (if k' = k then Some v' else dict_get kvs k)"

definition add_record :: "Record \<Rightarrow> AddressBook \<Rightarrow> AddressBook" where
  "add_record record book = dict_set (name record) record book"

definition find :: "pystr \<Rightarrow> AddressBook \<Rightarrow> Record option" where
  "find n book = dict_get book n"

definition dict_values :: "AddressBook \<Rightarrow> Record list" where
  "dict_values book = map snd book"

text \<open>
  A handler changes a record through the reference that \<open>find\<close> returned (or that it
  has just stored): the record kept under that key is the changed one.
\<close>

definition store :: "pystr \<Rightarrow> Record \<Rightarrow> AddressBook \<Rightarrow> AddressBook" where
  "store n record book = dict_set n record book"

subsection \<open>Upcoming birthdays\<close>

text \<open>
  One pass of the loop body of \<open>get_upcoming_birthdays\<close> for a record, with the
  result list so far; \<open>today\<close> is the value of \<open>date.today()\<close>. An entry of the
  result is the pair (name, congratulation date as text).
\<close>

definition upcoming_step ::
  "date \<Rightarrow> int \<Rightarrow> Record \<Rightarrow> (pystr \<times> pystr) list \<Rightarrow> error + (pystr \<times> pystr) list" where
  "upcoming_step today days record result =
     (case birthday record of
        None \<Rightarrow> Inr result
      | Some v \<Rightarrow>
          bind_res (strptime v) (\<lambda>birthday_date.
          bind_res (replace_year birthday_date (year today)) (\<lambda>birthday_this_year.
          bind_res (if date_less birthday_this_year today
                    then replace_year birthday_this_year (year today + 1)
                    else Inr birthday_this_year) (\<lambda>birthday_this_year.
          bind_res (adjust_for_weekend birthday_this_year) (\<lambda>congratulation_date.
          Inr (if 0 \<le> days_between congratulation_date today
                  \<and> days_between congratulation_date today \<le> days
               then result @ [(name record, strftime congratulation_date)]
               else result))))))"

fun upcoming_loop ::
  "date \<Rightarrow> int \<Rightarrow> Record list \<Rightarrow> (pystr \<times> pystr) list \<Rightarrow> error + (pystr \<times> pystr) list" where
  "upcoming_loop today days [] result = Inr result"
| "upcoming_loop today days (record # records) result =
     bind_res (upcoming_step today days record result) (upcoming_loop today days records)"

definition get_upcoming_birthdays ::
  "date \<Rightarrow> int \<Rightarrow> AddressBook \<Rightarrow> error + (pystr \<times> pystr) list" where
  "get_upcoming_birthdays today days book = upcoming_loop today days (dict_values book) []"

subsection \<open>Rendering the book\<close>

fun join :: "pystr \<Rightarrow> pystr list \<Rightarrow> pystr" where
  "join sep [] = []"
| "join sep [x] = x"
| "join sep (x # y # ys) = x @ sep @ join sep (y # ys)"

definition Record_line :: "Record \<Rightarrow> pystr" where
  "Record_line record =
     lit ''Name: '' @ name record @ lit '', Phones: '' @ join (lit ''; '') (phones record)
       @ lit '', Birthday: ''
       @ (case birthday record of None \<Rightarrow> lit ''N/A'' | Some v \<Rightarrow> v)"

definition AddressBook_str :: "AddressBook \<Rightarrow> pystr" where
  "AddressBook_str book =
     (if book = [] then lit ''Address book is empty.''
      else join [10] (map Record_line (dict_values book)))"

section \<open>Command handlers\<close>

text \<open>
  A handler takes the argument tokens and the book, and returns the outcome together
  with the book as it is afterwards. \<open>input_error\<close> is the decorator: it turns the four
  exception classes it catches into their messages and lets any other exception pass.
\<close>

definition input_error :: "(error + pystr) \<times> AddressBook \<Rightarrow> (error + pystr) \<times> AddressBook" where
  "input_error outcome =
     (case outcome of
        (Inr s, book) \<Rightarrow> (Inr s, book)
      | (Inl (ValueError msg), book) \<Rightarrow> (Inr (lit ''Provide correct data.''), book)
      | (Inl IndexError, book) \<Rightarrow> (Inr (lit ''Not enough arguments.''), book)
      | (Inl KeyError, book) \<Rightarrow> (Inr (lit ''Contact not found.''), book)
      | (Inl AttributeError, book) \<Rightarrow> (Inr (lit ''Contact not found.''), book)
      | (Inl e, book) \<Rightarrow> (Inl e, book))"

text \<open>
  Unpacking \<^verbatim>\<open>a, b, *_ = args\<close> raises \<open>ValueError\<close> when there are too few tokens;
  using a method or attribute of the \<open>None\<close> that \<open>find\<close> returns for an unknown name
  raises \<open>AttributeError\<close>.
\<close>

definition add_birthday :: "pystr list \<Rightarrow> AddressBook \<Rightarrow> (error + pystr) \<times> AddressBook" where
  "add_birthday args book = input_error
     (case args of
        n # b # _ \<Rightarrow>
          (case find n book of
             None \<Rightarrow> (Inl AttributeError, book)
           | Some record \<Rightarrow>
               (case Record_add_birthday b record of
                  (Inl e, record') \<Rightarrow> (Inl e, store n record' book)
                | (Inr _, record') \<Rightarrow> (Inr (lit ''Birthday added.''), store n record' book)))
      | _ \<Rightarrow> (Inl (ValueError ''not enough values to unpack''), book))"

definition show_birthday :: "pystr list \<Rightarrow> AddressBook \<Rightarrow> (error + pystr) \<times> AddressBook" where
  "show_birthday args book = input_error
     (case args of
        n # _ \<Rightarrow>
          (case find n book of
             None \<Rightarrow> (Inl AttributeError, book)
           | Some record \<Rightarrow>
               (case birthday record of
                  None \<Rightarrow> (Inr (lit ''Birthday not set.''), book)
                | Some v \<Rightarrow> (Inr v, book)))
      | _ \<Rightarrow> (Inl (ValueError ''not enough values to unpack''), book))"

definition birthdays ::
  "date \<Rightarrow> pystr list \<Rightarrow> AddressBook \<Rightarrow> (error + pystr) \<times> AddressBook" where
  "birthdays today args book = input_error
     (case get_upcoming_birthdays today 7 book of
        Inl e \<Rightarrow> (Inl e, book)
      | Inr upcoming \<Rightarrow>
          if upcoming = [] then (Inr (lit ''No birthdays in the next week.''), book)
          else (Inr (join [10] (map (\<lambda>(n, d). n @ lit '': '' @ d) upcoming)), book))"

definition add_contact :: "pystr list \<Rightarrow> AddressBook \<Rightarrow> (error + pystr) \<times> AddressBook" where
  "add_contact args book = input_error
     (case args of
        n # phone # _ \<Rightarrow>
          (let (record, book1, message) =
                 (case find n book of
                    None \<Rightarrow> (Record_init n, add_record (Record_init n) book, lit ''Contact added.'')
                  | Some r \<Rightarrow> (r, book, lit ''Contact updated.''))
           in if phone \<noteq> []
              then (case add_phone phone record of
                      (Inl e, record') \<Rightarrow> (Inl e, store n record' book1)
                    | (Inr _, record') \<Rightarrow> (Inr message, store n record' book1))
              else (Inr message, book1))
      | _ \<Rightarrow> (Inl (ValueError ''not enough values to unpack''), book))"

definition change_contact :: "pystr list \<Rightarrow> AddressBook \<Rightarrow> (error + pystr) \<times> AddressBook" where
  "change_contact args book = input_error
     (case args of
        n # old_phone # new_phone # _ \<Rightarrow>
          (case find n book of
             None \<Rightarrow> (Inl AttributeError, book)
           | Some record \<Rightarrow>
               (case edit_phone old_phone new_phone record of
                  (Inl e, record') \<Rightarrow> (Inl e, store n record' book)
                | (Inr _, record') \<Rightarrow> (Inr (lit ''Phone number updated.''), store n record' book)))
      | _ \<Rightarrow> (Inl (ValueError ''not enough values to unpack''), book))"

definition show_phone :: "pystr list \<Rightarrow> AddressBook \<Rightarrow> (error + pystr) \<times> AddressBook" where
  "show_phone args book = input_error
     (case args of
        n # _ \<Rightarrow>
          (case find n book of
             None \<Rightarrow> (Inl AttributeError, book)
           | Some record \<Rightarrow>
               if phones record = [] then (Inr (lit ''No phone numbers.''), book)
               else (Inr (join (lit ''; '') (phones record)), book))
      | _ \<Rightarrow> (Inl (ValueError ''not enough values to unpack''), book))"

definition show_all_contacts :: "pystr list \<Rightarrow> AddressBook \<Rightarrow> (error + pystr) \<times> AddressBook" where
  "show_all_contacts args book = input_error (Inr (AddressBook_str book), book)"

section \<open>The birthday rule in the words of the specification\<close>

text \<open>
  The target year of a birthday: this year, or next year when this year's occurrence
  (the birthday's month and day in the year of today) is already past. The occurrence
  is the birthday's month and day in the target year.
\<close>

definition target_year :: "date \<Rightarrow> date \<Rightarrow> int" where
  "target_year today bd =
     (if date_less (bd\<lparr>year := year today\<rparr>) today then year today + 1 else year today)"

definition occurrence :: "date \<Rightarrow> date \<Rightarrow> date" where
  "occurrence today bd = bd\<lparr>year := target_year today bd\<rparr>"

text \<open>
  What a record contributes to the result: nothing when it has no birthday; otherwise
  one entry with the weekend-adjusted occurrence when that date lies between 0 and
  \<open>days\<close> days after today, both ends included, and nothing when it does not.
\<close>

definition due_entry :: "date \<Rightarrow> int \<Rightarrow> Record \<Rightarrow> (pystr \<times> pystr) list" where
  "due_entry today days record =
     (case birthday record of
        None \<Rightarrow> []
      | Some v \<Rightarrow>
          (case strptime v of
             Inl e \<Rightarrow> []
           | Inr bd \<Rightarrow>
               (case adjust_for_weekend (occurrence today bd) of
                  Inl e \<Rightarrow> []
                | Inr adjusted \<Rightarrow>
                    if 0 \<le> days_between adjusted today \<and> days_between adjusted today \<le> days
                    then [(name record, strftime adjusted)]
                    else [])))"

text \<open>
  The occurrences of a record's birthday exist in the calendar: the stored text is a
  date, and its month and day form a date in this year and in the target year.
\<close>

definition constructible :: "date \<Rightarrow> Record \<Rightarrow> bool" where
  "constructible today record =
     (case birthday record of
        None \<Rightarrow> True
      | Some v \<Rightarrow>
          (case strptime v of
             Inl e \<Rightarrow> False
           | Inr bd \<Rightarrow> valid_date (bd\<lparr>year := year today\<rparr>) \<and> valid_date (occurrence today bd)))"

section \<open>Birthday texts in the words of the specification\<close>

text \<open>
  The specification's reading of a birthday text: three fields separated by full
  stops (\<open>raw.split(".")\<close>), a day and a month of one or two digits and a year of
  exactly four digits, which together name a date of the calendar.
\<close>

fun split_dots :: "pystr \<Rightarrow> pystr list" where
  "split_dots [] = [] # []"
| "split_dots (c # cs) =
     (if c = 46 then [] # split_dots cs
      else (case split_dots cs of [] \<Rightarrow> [c] # [] | f # fs \<Rightarrow> (c # f) # fs))"

definition spec_date_text :: "pystr \<Rightarrow> bool" where
  "spec_date_text raw =
     (case split_dots raw of
        [d, m, y] \<Rightarrow>
          d \<noteq> [] \<and> length d \<le> 2 \<and> list_all ascii_digit d
          \<and> m \<noteq> [] \<and> length m \<le> 2 \<and> list_all ascii_digit m
          \<and> length y = 4 \<and> list_all ascii_digit y
          \<and> valid_date \<lparr>year = int_of_group y, month = int_of_group m, day = int_of_group d\<rparr>
      | _ \<Rightarrow> False)"

text \<open>Texts written with ASCII digits and full stops only.\<close>

definition plain_text :: "pystr \<Rightarrow> bool" where
  "plain_text raw = list_all (\<lambda>c. ascii_digit c \<or> c = 46) raw"

text \<open>
  The texts that the three groups of the parser's expression stand for: a day is
  30 or 31, or 1 or 2 followed by any decimal digit, or 0 followed by 1..9, or a single
  1..9, alone or after one space; a month is 10..12, or 0 followed by 1..9, or a single
  1..9; a year is four decimal digits.
\<close>

definition day_text :: "pystr \<Rightarrow> bool" where
  "day_text d =
     (case d of
        [a] \<Rightarrow> between 49 57 a
      | [a, b] \<Rightarrow>
          (a = 51 \<and> between 48 49 b) \<or> (between 49 50 a \<and> isdecimal_char b)
          \<or> (a = 48 \<and> between 49 57 b) \<or> (a = 32 \<and> between 49 57 b)
      | _ \<Rightarrow> False)"

definition month_text :: "pystr \<Rightarrow> bool" where
  "month_text m =
     (case m of
        [a] \<Rightarrow> between 49 57 a
      | [a, b] \<Rightarrow> (a = 49 \<and> between 48 50 b) \<or> (a = 48 \<and> between 49 57 b)
      | _ \<Rightarrow> False)"

definition year_text :: "pystr \<Rightarrow> bool" where
  "year_text y = (length y = 4 \<and> list_all isdecimal_char y)"

text \<open>
  The canonical form DD.MM.YYYY: two digits, a full stop, two digits, a full stop, four
  digits.
\<close>

definition is_DD_MM_YYYY :: "pystr \<Rightarrow> bool" where
  "is_DD_MM_YYYY s =
     (length s = 10 \<and> s ! 2 = 46 \<and> s ! 5 = 46
      \<and> list_all ascii_digit (take 2 s @ take 2 (drop 3 s) @ drop 6 s))"

section \<open>Digits\<close>

lemma decimal_value_ascii:
  "c < 128 \<Longrightarrow> decimal_value c = (if 48 \<le> c \<and> c \<le> 57 then Some (c - 48) else None)"
  by (simp add: decimal_value_def decimal_zeros_def)

lemma isdigit_char_ascii: "c < 128 \<Longrightarrow> isdigit_char c = ascii_digit c"
  by (simp add: isdigit_char_def isdecimal_char_def decimal_value_ascii
      other_digit_ranges_def ascii_digit_def)

lemma ascii_digit_isdigit_char: "ascii_digit c \<Longrightarrow> isdigit_char c"
  using isdigit_char_ascii [of c] by (simp add: ascii_digit_def)

section \<open>Phone numbers\<close>

lemma Phone_total:
  "Phone raw = Inr raw
   \<or> Phone raw = Inl (ValueError ''Phone number must contain exactly 10 digits'')"
  by (simp add: Phone_def)

lemma is_ascii_digits: "is_ascii raw \<Longrightarrow> list_all isdigit_char raw = list_all ascii_digit raw"
  by (induction raw) (simp_all add: is_ascii_def isdigit_char_ascii)

text \<open>
  C3, as the code has it. Constructing a phone number either succeeds, keeping the
  text, or fails with the validation error. It succeeds exactly when the text has ten
  characters and each of them is a digit for \<open>str.isdigit\<close>. On texts of ASCII
  characters this is the rule of the specification: exactly ten ASCII digits.
\<close>

theorem Phone_accepts_iff:
  "(Phone raw = Inr raw
      \<or> Phone raw = Inl (ValueError ''Phone number must contain exactly 10 digits''))
   \<and> (Phone raw = Inr raw \<longleftrightarrow> length raw = 10 \<and> list_all isdigit_char raw)
   \<and> (is_ascii raw \<longrightarrow> (Phone raw = Inr raw \<longleftrightarrow> ten_ascii_digits raw))"
proof -
  have a: "Phone raw = Inr raw \<longleftrightarrow> length raw = 10 \<and> list_all isdigit_char raw"
    by (auto simp: Phone_def isdigit_def)
  have b: "is_ascii raw \<longrightarrow> (Phone raw = Inr raw \<longleftrightarrow> ten_ascii_digits raw)"
    using a is_ascii_digits [of raw] by (simp add: ten_ascii_digits_def)
  from Phone_total a b show ?thesis by blast
qed

theorem Phone_accepts_iff_witness:
  "is_ascii [49, 50, 51, 52, 53, 54, 55, 56, 57, 48]
   \<and> Phone [49, 50, 51, 52, 53, 54, 55, 56, 57, 48]
       = Inr [49, 50, 51, 52, 53, 54, 55, 56, 57, 48]"
  using Phone_accepts_iff [of "[49, 50, 51, 52, 53, 54, 55, 56, 57, 48]"]
  by (simp add: is_ascii_def ten_ascii_digits_def ascii_digit_def)

text \<open>
  C3, as the specification states it, fails: the ten Arabic-Indic digits
  U+0661 .. U+0669, U+0660 are not ASCII digits, and the phone number is constructed.
\<close>

theorem Phone_non_ascii_counterexample:
  "Phone [1633, 1634, 1635, 1636, 1637, 1638, 1639, 1640, 1641, 1632]
     = Inr [1633, 1634, 1635, 1636, 1637, 1638, 1639, 1640, 1641, 1632]
   \<and> \<not> ten_ascii_digits [1633, 1634, 1635, 1636, 1637, 1638, 1639, 1640, 1641, 1632]"
  by (simp add: Phone_def isdigit_def isdigit_char_def isdecimal_char_def decimal_value_def
      decimal_zeros_def ten_ascii_digits_def ascii_digit_def)

section \<open>Calendar arithmetic\<close>

lemma div_step_general:
  fixes y k :: int
  assumes k: "1 < k"
  shows "y div k = (y - 1) div k + (if y mod k = 0 then 1 else 0)"
proof -
  define q where "q = (y - 1) div k"
  define r where "r = (y - 1) mod k"
  have y: "y = q * k + (r + 1)" and r: "0 \<le> r" "r < k"
    using k by (simp_all add: q_def r_def)
  show ?thesis
  proof (cases "r + 1 = k")
    case True
    then have "y = (q + 1) * k" using y by (simp add: algebra_simps)
    then have "y div k = q + 1" "y mod k = 0" using k by simp_all
    then show ?thesis by (simp add: q_def)
  next
    case False
    then have lt: "0 \<le> r + 1" "r + 1 < k" using r by simp_all
    have "(q * k + (r + 1)) div k = q + (r + 1) div k"
      using k by (simp only: div_mult_self3)
    then have d: "y div k = q" using y lt by (simp add: div_pos_pos_trivial)
    have "(q * k + (r + 1)) mod k = (r + 1) mod k"
      by (simp only: mod_mult_self3)
    then have m: "y mod k = r + 1" using y lt by (simp add: mod_pos_pos_trivial)
    from d m lt r show ?thesis by (simp add: q_def)
  qed
qed


lemma mod_100_4: "(y::int) mod 100 = 0 \<Longrightarrow> y mod 4 = 0"
  using mod_mod_cancel [of 4 100 y] by simp

lemma mod_400_100: "(y::int) mod 400 = 0 \<Longrightarrow> y mod 100 = 0"
  using mod_mod_cancel [of 100 400 y] by simp

lemma leap_sum:
  "(if (y::int) mod 4 = 0 then 1 else 0) - (if y mod 100 = 0 then 1 else 0)
      + (if y mod 400 = 0 then 1 else 0)
    = (if is_leap y then 1 else (0::int))"
proof (cases "y mod 400 = 0")
  case True
  with mod_400_100 [of y] mod_100_4 [of y] show ?thesis by (simp add: is_leap_def)
next
  case False
  show ?thesis
  proof (cases "y mod 100 = 0")
    case True
    with False mod_100_4 [of y] show ?thesis by (simp add: is_leap_def)
  next
    case False
    with \<open>y mod 400 \<noteq> 0\<close> show ?thesis by (simp add: is_leap_def)
  qed
qed

lemma days_before_year_Suc:
  "days_before_year (y + 1) = days_before_year y + 365 + (if is_leap y then 1 else 0)"
proof -
  have a: "y div 4 = (y - 1) div 4 + (if y mod 4 = 0 then 1 else 0)"
    by (rule div_step_general) simp
  have b: "y div 100 = (y - 1) div 100 + (if y mod 100 = 0 then 1 else 0)"
    by (rule div_step_general) simp
  have c: "y div 400 = (y - 1) div 400 + (if y mod 400 = 0 then 1 else 0)"
    by (rule div_step_general) simp
  have "days_before_year (y + 1) = y * 365 + y div 4 - y div 100 + y div 400"
    by (simp add: days_before_year_def)
  also have "\<dots> = days_before_year y + 365 + ((if y mod 4 = 0 then 1 else 0)
      - (if y mod 100 = 0 then 1 else 0) + (if y mod 400 = 0 then 1 else 0))"
    unfolding days_before_year_def a b c by (simp only: algebra_simps)
  finally show ?thesis by (simp only: leap_sum)
qed

lemma month_cases:
  "1 \<le> (m::int) \<Longrightarrow> m \<le> 12 \<Longrightarrow>
   m = 1 \<or> m = 2 \<or> m = 3 \<or> m = 4 \<or> m = 5 \<or> m = 6 \<or> m = 7 \<or> m = 8 \<or> m = 9 \<or> m = 10
     \<or> m = 11 \<or> m = 12"
  by presburger


lemma days_before_month_Suc:
  assumes "1 \<le> m" "m < 12"
  shows "days_before_month y (m + 1) = days_before_month y m + days_in_month y m"
proof -
  from assms month_cases [of m]
  consider "m = 1" | "m = 2" | "m = 3" | "m = 4" | "m = 5" | "m = 6" | "m = 7" | "m = 8"
    | "m = 9" | "m = 10" | "m = 11" by fastforce
  then show ?thesis
    by cases (simp_all add: days_before_month_def days_in_month_def)
qed

lemma days_in_month_bounds:
  assumes "1 \<le> m" "m \<le> 12"
  shows "28 \<le> days_in_month y m \<and> days_in_month y m \<le> 31"
proof -
  from assms month_cases [of m]
  consider "m = 1" | "m = 2" | "m = 3" | "m = 4" | "m = 5" | "m = 6" | "m = 7" | "m = 8"
    | "m = 9" | "m = 10" | "m = 11" | "m = 12" by fastforce
  then show ?thesis
    by cases (simp_all add: days_in_month_def)
qed

lemma days_in_december: "days_in_month y 12 = 31"
  by (simp add: days_in_month_def)

lemma days_before_december: "days_before_month y 12 = 334 + (if is_leap y then 1 else 0)"
  by (simp add: days_before_month_def)

lemma days_before_january: "days_before_month y 1 = 0"
  by (simp add: days_before_month_def)

lemma next_day_ok:
  assumes "valid_date dt" "next_day dt = Inr dt'"
  shows "valid_date dt' \<and> toordinal dt' = toordinal dt + 1"
proof -
  from assms(1) have v: "1 \<le> year dt" "year dt \<le> 9999" "1 \<le> month dt" "month dt \<le> 12"
    "1 \<le> day dt" "day dt \<le> days_in_month (year dt) (month dt)"
    by (simp_all add: valid_date_def)
  show ?thesis
  proof (cases "day dt < days_in_month (year dt) (month dt)")
    case True
    with assms(2) have "dt' = dt\<lparr>day := day dt + 1\<rparr>" by (simp add: next_day_def)
    with v True show ?thesis by (simp add: valid_date_def toordinal_def)
  next
    case last: False
    show ?thesis
    proof (cases "month dt < 12")
      case True
      with assms(2) last have dt': "dt' = dt\<lparr>month := month dt + 1, day := 1\<rparr>"
        by (simp add: next_day_def)
      from days_in_month_bounds [of "month dt + 1" "year dt"] v True
      have "1 \<le> days_in_month (year dt) (month dt + 1)" by simp
      with v last True dt' days_before_month_Suc [of "month dt" "year dt"] show ?thesis
        by (simp add: valid_date_def toordinal_def)
    next
      case False
      with v have m: "month dt = 12" by simp
      with v last have d: "day dt = 31" by (simp add: days_in_december)
      from assms(2) last m have y: "year dt < 9999" and
        dt': "dt' = \<lparr>year = year dt + 1, month = 1, day = 1\<rparr>"
        by (simp_all add: next_day_def split: if_splits)
      have "1 \<le> days_in_month (year dt + 1) 1" by (simp add: days_in_month_def)
      with v m d y dt' show ?thesis
        by (simp add: valid_date_def toordinal_def days_before_year_Suc
            days_before_december days_before_january)
    qed
  qed
qed

lemma next_day_succeeds:
  assumes "valid_date dt" "dt \<noteq> \<lparr>year = 9999, month = 12, day = 31\<rparr>"
  shows "\<exists>dt'. next_day dt = Inr dt'"
proof (rule ccontr)
  assume "\<not> (\<exists>dt'. next_day dt = Inr dt')"
  then have a: "\<not> day dt < days_in_month (year dt) (month dt)" "\<not> month dt < 12"
    "\<not> year dt < 9999"
    by (auto simp: next_day_def split: if_splits)
  with assms(1) have "year dt = 9999" "month dt = 12" by (simp_all add: valid_date_def)
  moreover with a assms(1) have "day dt = 31" by (simp add: valid_date_def days_in_december)
  ultimately have "dt = \<lparr>year = 9999, month = 12, day = 31\<rparr>" by simp
  with assms(2) show False by simp
qed

lemma weekday_range: "0 \<le> weekday dt \<and> weekday dt < 7"
  by (simp add: weekday_def)

lemma weekday_step: "toordinal b = toordinal a + 1 \<Longrightarrow> weekday b = (weekday a + 1) mod 7"
  unfolding weekday_def by (simp add: mod_simps algebra_simps)

lemma weekday_last: "weekday \<lparr>year = 9999, month = 12, day = 31\<rparr> = 4"
  by (simp add: weekday_def toordinal_def days_before_year_def days_before_month_def is_leap_def)


lemma weekend_not_last:
  "weekday dt = 5 \<or> weekday dt = 6 \<Longrightarrow> dt \<noteq> \<lparr>year = 9999, month = 12, day = 31\<rparr>"
  using weekday_last by auto

lemma next_day_weekday:
  assumes "valid_date dt" "dt \<noteq> \<lparr>year = 9999, month = 12, day = 31\<rparr>"
  shows "\<exists>dt'. next_day dt = Inr dt' \<and> valid_date dt' \<and> toordinal dt' = toordinal dt + 1
           \<and> weekday dt' = (weekday dt + 1) mod 7"
proof -
  from next_day_succeeds [OF assms] obtain dt' where n: "next_day dt = Inr dt'" by blast
  from next_day_ok [OF assms(1) n] weekday_step [of dt' dt] n show ?thesis by simp
qed

lemma adjust_for_weekend_total:
  assumes "valid_date dt"
  shows "\<exists>m. adjust_for_weekend dt = Inr m \<and> valid_date m
           \<and> toordinal m = toordinal dt
                + (if weekday dt = 5 then 2 else if weekday dt = 6 then 1 else 0)
           \<and> weekday m = (if weekday dt = 5 \<or> weekday dt = 6 then 0 else weekday dt)"
proof -
  consider (sat) "weekday dt = 5" | (sun) "weekday dt = 6"
    | (other) "weekday dt \<noteq> 5" "weekday dt \<noteq> 6" by blast
  then show ?thesis
  proof cases
    case sat
    from next_day_weekday [OF assms weekend_not_last] sat
    obtain d1 where d1: "next_day dt = Inr d1" "valid_date d1" "toordinal d1 = toordinal dt + 1"
      "weekday d1 = 6" by auto
    from next_day_weekday [OF d1(2) weekend_not_last] d1(4)
    obtain d2 where d2: "next_day d1 = Inr d2" "valid_date d2" "toordinal d2 = toordinal d1 + 1"
      "weekday d2 = 0" by auto
    have "add_days dt 2 = Inr d2"
      using d1(1) d2(1) by (simp add: numeral_2_eq_2)
    with sat d1 d2 show ?thesis by (simp add: adjust_for_weekend_def)
  next
    case sun
    from next_day_weekday [OF assms weekend_not_last] sun
    obtain d1 where d1: "next_day dt = Inr d1" "valid_date d1" "toordinal d1 = toordinal dt + 1"
      "weekday d1 = 0" by auto
    have "add_days dt 1 = Inr d1" using d1(1) by simp
    with sun d1 show ?thesis by (simp add: adjust_for_weekend_def)
  next
    case other
    with assms show ?thesis by (simp add: adjust_for_weekend_def)
  qed
qed

text \<open>
  C2. For every date a \<open>date\<close> object can hold: a Saturday is moved to a valid date two
  days later, which is a Monday; a Sunday to a valid date one day later, which is a
  Monday; any other day is returned unchanged. The adjustment never fails.
\<close>

theorem adjust_for_weekend_rule:
  assumes "valid_date dt"
  shows "(weekday dt = 5 \<longrightarrow>
            (\<exists>m. adjust_for_weekend dt = Inr m \<and> valid_date m \<and> weekday m = 0
                 \<and> days_between m dt = 2))
       \<and> (weekday dt = 6 \<longrightarrow>
            (\<exists>m. adjust_for_weekend dt = Inr m \<and> valid_date m \<and> weekday m = 0
                 \<and> days_between m dt = 1))
       \<and> (weekday dt \<noteq> 5 \<and> weekday dt \<noteq> 6 \<longrightarrow> adjust_for_weekend dt = Inr dt)"
proof -
  from adjust_for_weekend_total [OF assms]
  obtain m where m: "adjust_for_weekend dt = Inr m" "valid_date m"
    "toordinal m = toordinal dt + (if weekday dt = 5 then 2 else if weekday dt = 6 then 1 else 0)"
    "weekday m = (if weekday dt = 5 \<or> weekday dt = 6 then 0 else weekday dt)" by blast
  have other: "weekday dt \<noteq> 5 \<and> weekday dt \<noteq> 6 \<longrightarrow> adjust_for_weekend dt = Inr dt"
    by (simp add: adjust_for_weekend_def)
  from m other show ?thesis by (simp add: days_between_def)
qed

theorem adjust_for_weekend_rule_witness:
  "valid_date \<lparr>year = 2025, month = 1, day = 4\<rparr>
   \<and> weekday \<lparr>year = 2025, month = 1, day = 4\<rparr> = 5
   \<and> adjust_for_weekend \<lparr>year = 2025, month = 1, day = 4\<rparr> = Inr \<lparr>year = 2025, month = 1, day = 6\<rparr>
   \<and> weekday \<lparr>year = 2025, month = 1, day = 6\<rparr> = 0
   \<and> days_between \<lparr>year = 2025, month = 1, day = 6\<rparr> \<lparr>year = 2025, month = 1, day = 4\<rparr> = 2
   \<and> valid_date \<lparr>year = 2025, month = 1, day = 5\<rparr>
   \<and> weekday \<lparr>year = 2025, month = 1, day = 5\<rparr> = 6
   \<and> adjust_for_weekend \<lparr>year = 2025, month = 1, day = 5\<rparr> = Inr \<lparr>year = 2025, month = 1, day = 6\<rparr>
   \<and> days_between \<lparr>year = 2025, month = 1, day = 6\<rparr> \<lparr>year = 2025, month = 1, day = 5\<rparr> = 1
   \<and> valid_date \<lparr>year = 2025, month = 1, day = 1\<rparr>
   \<and> weekday \<lparr>year = 2025, month = 1, day = 1\<rparr> = 2
   \<and> adjust_for_weekend \<lparr>year = 2025, month = 1, day = 1\<rparr> = Inr \<lparr>year = 2025, month = 1, day = 1\<rparr>"
proof -
  have v: "valid_date \<lparr>year = 2025, month = 1, day = 4\<rparr>"
    "valid_date \<lparr>year = 2025, month = 1, day = 5\<rparr>"
    "valid_date \<lparr>year = 2025, month = 1, day = 1\<rparr>"
    by (simp_all add: valid_date_def days_in_month_def)
  have w: "weekday \<lparr>year = 2025, month = 1, day = 4\<rparr> = 5"
    "weekday \<lparr>year = 2025, month = 1, day = 5\<rparr> = 6"
    "weekday \<lparr>year = 2025, month = 1, day = 1\<rparr> = 2"
    by (simp_all add: weekday_def toordinal_def days_before_year_def days_before_month_def
        is_leap_def)
  have a: "adjust_for_weekend \<lparr>year = 2025, month = 1, day = 4\<rparr>
             = Inr \<lparr>year = 2025, month = 1, day = 6\<rparr>"
    "adjust_for_weekend \<lparr>year = 2025, month = 1, day = 5\<rparr>
             = Inr \<lparr>year = 2025, month = 1, day = 6\<rparr>"
    using w by (simp_all add: adjust_for_weekend_def numeral_2_eq_2 next_day_def days_in_month_def)
  from adjust_for_weekend_rule [OF v(1)] adjust_for_weekend_rule [OF v(2)]
    adjust_for_weekend_rule [OF v(3)] v w a
  show ?thesis by simp
qed

section \<open>Editing a phone\<close>

lemma first_index_None: "first_index phone ps = None \<longleftrightarrow> phone \<notin> set ps"
  by (induction ps) auto

lemma first_index_Some:
  "first_index phone ps = Some i \<Longrightarrow>
     i < length ps \<and> ps ! i = phone \<and> (\<forall>j<i. ps ! j \<noteq> phone)"
proof (induction ps arbitrary: i)
  case Nil
  then show ?case by simp
next
  case (Cons p ps)
  show ?case
  proof (cases "p = phone")
    case True
    with Cons.prems show ?thesis by simp
  next
    case False
    with Cons.prems obtain k where k: "first_index phone ps = Some k" "i = Suc k" by auto
    from Cons.IH [OF k(1)] False k(2) show ?thesis
      by (auto simp: nth_Cons split: nat.splits)
  qed
qed

lemma Phone_Inr: "Phone v = Inr p \<Longrightarrow> p = v \<and> v \<noteq> [] \<and> length v = 10"
  by (auto simp: Phone_def isdigit_def split: if_splits)

lemma lit_digits: "Phone (lit ''3333333333'') = Inr (lit ''3333333333'')"
  by (simp add: Phone_def isdigit_def lit_def isdigit_char_ascii ascii_digit_def)

text \<open>
  C4. When no phone of the record equals the old text, \<open>edit_phone\<close> fails with the
  error ``Old phone is not exist'' and leaves the record as it was. When a phone
  matches but the new text is not a valid phone number, it fails with the validation
  error and leaves the record as it was. Otherwise it succeeds, and the new phone list
  is the old one with the first phone equal to the old text replaced at its own
  position: same length, every other position unchanged. On the phones
  1111111111, 2222222222, editing 1111111111 to 3333333333 gives 3333333333, 2222222222.
\<close>

theorem edit_phone_rule:
  "(old_phone \<notin> set (phones r) \<longrightarrow>
      edit_phone old_phone new_phone r = (Inl (ValueError ''Old phone is not exist''), r))
   \<and> (old_phone \<in> set (phones r) \<longrightarrow> Phone new_phone \<noteq> Inr new_phone \<longrightarrow>
      edit_phone old_phone new_phone r
        = (Inl (ValueError ''Phone number must contain exactly 10 digits''), r))
   \<and> (old_phone \<in> set (phones r) \<longrightarrow> Phone new_phone = Inr new_phone \<longrightarrow>
      (\<exists>i<length (phones r). phones r ! i = old_phone \<and> (\<forall>j<i. phones r ! j \<noteq> old_phone)
         \<and> edit_phone old_phone new_phone r
             = (Inr (), r\<lparr>phones := (phones r)[i := new_phone]\<rparr>)))
   \<and> edit_phone (lit ''1111111111'') (lit ''3333333333'')
        \<lparr>name = n, phones = [lit ''1111111111'', lit ''2222222222''], birthday = b\<rparr>
      = (Inr (), \<lparr>name = n, phones = [lit ''3333333333'', lit ''2222222222''], birthday = b\<rparr>)"
proof -
  have a: "old_phone \<notin> set (phones r) \<longrightarrow>
      edit_phone old_phone new_phone r = (Inl (ValueError ''Old phone is not exist''), r)"
    by (simp add: edit_phone_def find_phone_def first_index_None [symmetric])
  have b: "old_phone \<in> set (phones r) \<longrightarrow> Phone new_phone \<noteq> Inr new_phone \<longrightarrow>
      edit_phone old_phone new_phone r
        = (Inl (ValueError ''Phone number must contain exactly 10 digits''), r)"
  proof (intro impI)
    assume "old_phone \<in> set (phones r)" and bad: "Phone new_phone \<noteq> Inr new_phone"
    then obtain i where "first_index old_phone (phones r) = Some i"
      using first_index_None [of old_phone "phones r"] by auto
    moreover from bad Phone_total [of new_phone]
    have "Phone new_phone = Inl (ValueError ''Phone number must contain exactly 10 digits'')"
      by simp
    ultimately show "edit_phone old_phone new_phone r
        = (Inl (ValueError ''Phone number must contain exactly 10 digits''), r)"
      by (simp add: edit_phone_def find_phone_def)
  qed
  have c: "old_phone \<in> set (phones r) \<longrightarrow> Phone new_phone = Inr new_phone \<longrightarrow>
      (\<exists>i<length (phones r). phones r ! i = old_phone \<and> (\<forall>j<i. phones r ! j \<noteq> old_phone)
         \<and> edit_phone old_phone new_phone r
             = (Inr (), r\<lparr>phones := (phones r)[i := new_phone]\<rparr>))"
  proof (intro impI)
    assume "old_phone \<in> set (phones r)" and ok: "Phone new_phone = Inr new_phone"
    then obtain i where i: "first_index old_phone (phones r) = Some i"
      using first_index_None [of old_phone "phones r"] by auto
    from i ok have "edit_phone old_phone new_phone r
        = (Inr (), r\<lparr>phones := (phones r)[i := new_phone]\<rparr>)"
      by (simp add: edit_phone_def find_phone_def)
    with first_index_Some [OF i]
    show "\<exists>i<length (phones r). phones r ! i = old_phone \<and> (\<forall>j<i. phones r ! j \<noteq> old_phone)
         \<and> edit_phone old_phone new_phone r
             = (Inr (), r\<lparr>phones := (phones r)[i := new_phone]\<rparr>)"
      by blast
  qed
  have d: "edit_phone (lit ''1111111111'') (lit ''3333333333'')
        \<lparr>name = n, phones = [lit ''1111111111'', lit ''2222222222''], birthday = b\<rparr>
      = (Inr (), \<lparr>name = n, phones = [lit ''3333333333'', lit ''2222222222''], birthday = b\<rparr>)"
    by (simp add: edit_phone_def find_phone_def lit_digits)
  from a b c d show ?thesis by blast
qed


theorem edit_phone_rule_witness:
  "lit ''9999999999'' \<notin> set [lit ''1111111111'', lit ''2222222222'']
   \<and> edit_phone (lit ''9999999999'') (lit ''3333333333'')
        \<lparr>name = lit ''Ann'', phones = [lit ''1111111111'', lit ''2222222222''], birthday = None\<rparr>
      = (Inl (ValueError ''Old phone is not exist''),
         \<lparr>name = lit ''Ann'', phones = [lit ''1111111111'', lit ''2222222222''], birthday = None\<rparr>)
   \<and> lit ''2222222222'' \<in> set [lit ''1111111111'', lit ''2222222222'']
   \<and> Phone (lit ''12-34'') \<noteq> Inr (lit ''12-34'')
   \<and> edit_phone (lit ''2222222222'') (lit ''12-34'')
        \<lparr>name = lit ''Ann'', phones = [lit ''1111111111'', lit ''2222222222''], birthday = None\<rparr>
      = (Inl (ValueError ''Phone number must contain exactly 10 digits''),
         \<lparr>name = lit ''Ann'', phones = [lit ''1111111111'', lit ''2222222222''], birthday = None\<rparr>)
   \<and> Phone (lit ''3333333333'') = Inr (lit ''3333333333'')
   \<and> edit_phone (lit ''2222222222'') (lit ''3333333333'')
        \<lparr>name = lit ''Ann'', phones = [lit ''1111111111'', lit ''2222222222''], birthday = None\<rparr>
      = (Inr (),
         \<lparr>name = lit ''Ann'', phones = [lit ''1111111111'', lit ''3333333333''], birthday = None\<rparr>)"
proof -
  let ?r = "\<lparr>name = lit ''Ann'', phones = [lit ''1111111111'', lit ''2222222222''],
             birthday = None\<rparr>"
  have h1: "lit ''9999999999'' \<notin> set (phones ?r)" by (simp add: lit_def)
  have h2: "lit ''2222222222'' \<in> set (phones ?r)" by simp
  have h3: "Phone (lit ''12-34'') \<noteq> Inr (lit ''12-34'')" by (simp add: Phone_def lit_def)
  have h4: "Phone (lit ''3333333333'') = Inr (lit ''3333333333'')" by (rule lit_digits)
  from edit_phone_rule [of "lit ''9999999999''" ?r "lit ''3333333333''"] h1
  have c1: "edit_phone (lit ''9999999999'') (lit ''3333333333'') ?r
      = (Inl (ValueError ''Old phone is not exist''), ?r)" by blast
  from edit_phone_rule [of "lit ''2222222222''" ?r "lit ''12-34''"] h2 h3
  have c2: "edit_phone (lit ''2222222222'') (lit ''12-34'') ?r
      = (Inl (ValueError ''Phone number must contain exactly 10 digits''), ?r)" by blast
  from edit_phone_rule [of "lit ''2222222222''" ?r "lit ''3333333333''"] h2 h4
  obtain i where i: "i < length (phones ?r)" "phones ?r ! i = lit ''2222222222''"
    "edit_phone (lit ''2222222222'') (lit ''3333333333'') ?r
      = (Inr (), ?r\<lparr>phones := (phones ?r)[i := lit ''3333333333'']\<rparr>)" by blast
  have "i \<noteq> 0"
  proof
    assume "i = 0"
    with i(2) show False by (simp add: lit_def)
  qed
  with i(1) have "i = 1" by simp
  with i(3) have c3: "edit_phone (lit ''2222222222'') (lit ''3333333333'') ?r
      = (Inr (), \<lparr>name = lit ''Ann'', phones = [lit ''1111111111'', lit ''3333333333''],
           birthday = None\<rparr>)" by simp
  from h1 h2 h3 h4 c1 c2 c3 show ?thesis by simp
qed

section \<open>The address book and \<open>add_contact\<close>\<close>

lemma dict_set_absent: "dict_get book n = None \<Longrightarrow> dict_set n v book = book @ [(n, v)]"
  by (induction book) (auto split: if_splits)

lemma dict_get_set: "dict_get (dict_set n v book) n = Some v"
  by (induction book) auto

lemma dict_set_set: "dict_set n v (dict_set n w book) = dict_set n v book"
  by (induction book) auto

lemma dict_get_append_absent:
  "dict_get book n = None \<Longrightarrow> dict_get (book @ [(n, v)]) n = Some v"
  by (induction book) (auto split: if_splits)

lemma dict_get_None_keys: "dict_get book n = None \<Longrightarrow> filter (\<lambda>kv. fst kv = n) book = []"
  by (induction book) (auto split: if_splits)

lemma input_error_Inr: "input_error (Inr s, book) = (Inr s, book)"
  by (simp add: input_error_def)

lemma input_error_ValueError:
  "input_error (Inl (ValueError msg), book) = (Inr (lit ''Provide correct data.''), book)"
  by (simp add: input_error_def)

lemma input_error_AttributeError:
  "input_error (Inl AttributeError, book) = (Inr (lit ''Contact not found.''), book)"
  by (simp add: input_error_def)

lemma add_contact_new:
  assumes "find n book = None"
  shows "add_contact (n # p # rest) book =
     (if p = [] then (Inr (lit ''Contact added.''), book @ [(n, Record_init n)])
      else if Phone p = Inr p
      then (Inr (lit ''Contact added.''),
            book @ [(n, \<lparr>name = n, phones = [p], birthday = None\<rparr>)])
      else (Inr (lit ''Provide correct data.''), book @ [(n, Record_init n)]))"
proof -
  from assms have g: "dict_get book n = None" by (simp add: find_def)
  have ar: "add_record (Record_init n) book = book @ [(n, Record_init n)]"
    using g by (simp add: add_record_def Record_init_def dict_set_absent)
  have st: "\<And>r. store n r (book @ [(n, Record_init n)]) = book @ [(n, r)]"
    using dict_set_set [of n _ "Record_init n" book] g
    by (simp add: store_def dict_set_absent [symmetric])
  show ?thesis
  proof (cases "p = []")
    case True
    with assms ar show ?thesis by (simp add: add_contact_def input_error_Inr)
  next
    case False
    show ?thesis
    proof (cases "Phone p = Inr p")
      case True
      with False assms ar st show ?thesis
        by (simp add: add_contact_def add_phone_def input_error_Inr Record_init_def)
    next
      case bad: False
      with Phone_total [of p]
      have "Phone p = Inl (ValueError ''Phone number must contain exactly 10 digits'')" by simp
      with False assms ar st show ?thesis
        by (simp add: add_contact_def add_phone_def input_error_ValueError)
    qed
  qed
qed

lemma add_contact_existing:
  assumes "find n book = Some r"
  shows "add_contact (n # p # rest) book =
     (if p = [] then (Inr (lit ''Contact updated.''), book)
      else if Phone p = Inr p
      then (Inr (lit ''Contact updated.''), dict_set n (r\<lparr>phones := phones r @ [p]\<rparr>) book)
      else (Inr (lit ''Provide correct data.''), dict_set n r book))"
proof (cases "p = []")
  case True
  with assms show ?thesis by (simp add: add_contact_def input_error_Inr)
next
  case False
  show ?thesis
  proof (cases "Phone p = Inr p")
    case True
    with False assms show ?thesis
      by (simp add: add_contact_def add_phone_def input_error_Inr store_def)
  next
    case bad: False
    with Phone_total [of p]
    have "Phone p = Inl (ValueError ''Phone number must contain exactly 10 digits'')" by simp
    with False assms show ?thesis
      by (simp add: add_contact_def add_phone_def input_error_ValueError store_def)
  qed
qed


lemma dict_set_same: "dict_get book n = Some r \<Longrightarrow> dict_set n r book = book"
  by (induction book) (auto split: if_splits)

lemma dict_set_keys: "dict_get book n = Some r \<Longrightarrow> map fst (dict_set n v book) = map fst book"
  by (induction book) (auto split: if_splits)

text \<open>
  C7, as the code has it. For a name not in the book, \<open>add_contact\<close> appends a fresh
  record under that name, whatever the phone text is, and for a name in the book it
  keeps the keys of the book as they are. With a phone text that is valid (or empty,
  in which case no phone is appended) the first call for a name answers
  ``Contact added.'', and a call for a name in the book changes the existing record in
  place and answers ``Contact updated.''. With a non-empty phone text that is not a
  valid phone number either call answers ``Provide correct data.''; the existing record
  is left as it was. Two calls with the same new name and two valid phones leave the
  book with one record for that name, holding both phones in the order given.
\<close>

theorem add_contact_rule:
  "(find n book = None \<longrightarrow>
      (\<exists>fresh. snd (add_contact (n # q # rest_q) book) = book @ [(n, fresh)]
         \<and> name fresh = n \<and> birthday fresh = None \<and> set (phones fresh) \<subseteq> {q}))
   \<and> (find n book = Some r \<longrightarrow>
      map fst (snd (add_contact (n # q # rest_q) book)) = map fst book)
   \<and> (find n book = None \<longrightarrow> (p = [] \<or> Phone p = Inr p) \<longrightarrow>
      add_contact (n # p # rest) book
        = (Inr (lit ''Contact added.''),
           book @ [(n, \<lparr>name = n, phones = (if p = [] then [] else [p]), birthday = None\<rparr>)]))
   \<and> (find n book = Some r \<longrightarrow> (p = [] \<or> Phone p = Inr p) \<longrightarrow>
      add_contact (n # p # rest) book
        = (Inr (lit ''Contact updated.''),
           dict_set n (r\<lparr>phones := phones r @ (if p = [] then [] else [p])\<rparr>) book)
      \<and> map fst (snd (add_contact (n # p # rest) book)) = map fst book)
   \<and> (find n book = None \<longrightarrow> Phone pa = Inr pa \<longrightarrow> Phone pb = Inr pb \<longrightarrow>
      (\<exists>book1 book2.
         add_contact (n # pa # rest_a) book = (Inr (lit ''Contact added.''), book1)
         \<and> add_contact (n # pb # rest_b) book1 = (Inr (lit ''Contact updated.''), book2)
         \<and> book2 = book @ [(n, \<lparr>name = n, phones = [pa, pb], birthday = None\<rparr>)]
         \<and> find n book2 = Some \<lparr>name = n, phones = [pa, pb], birthday = None\<rparr>
         \<and> length (filter (\<lambda>kv. fst kv = n) book2) = 1))
   \<and> (find n book = None \<longrightarrow> bad \<noteq> [] \<longrightarrow> Phone bad \<noteq> Inr bad \<longrightarrow>
      fst (add_contact (n # bad # rest_bad) book) = Inr (lit ''Provide correct data.''))
   \<and> (find n book = Some r \<longrightarrow> bad \<noteq> [] \<longrightarrow> Phone bad \<noteq> Inr bad \<longrightarrow>
      add_contact (n # bad # rest_bad) book = (Inr (lit ''Provide correct data.''), book))"
proof -
  have i1: "find n book = None \<longrightarrow> bad \<noteq> [] \<longrightarrow> Phone bad \<noteq> Inr bad \<longrightarrow>
      fst (add_contact (n # bad # rest_bad) book) = Inr (lit ''Provide correct data.'')"
    by (simp add: add_contact_new)
  have i2: "find n book = Some r \<longrightarrow> bad \<noteq> [] \<longrightarrow> Phone bad \<noteq> Inr bad \<longrightarrow>
      add_contact (n # bad # rest_bad) book = (Inr (lit ''Provide correct data.''), book)"
    by (simp add: add_contact_existing find_def dict_set_same)
  have f: "find n book = None \<longrightarrow>
      (\<exists>fresh. snd (add_contact (n # q # rest_q) book) = book @ [(n, fresh)]
         \<and> name fresh = n \<and> birthday fresh = None \<and> set (phones fresh) \<subseteq> {q})"
    by (simp add: add_contact_new Record_init_def)
  have k: "find n book = Some r \<longrightarrow>
      map fst (snd (add_contact (n # q # rest_q) book)) = map fst book"
    by (simp add: add_contact_existing find_def dict_set_keys)
  have a: "find n book = None \<longrightarrow> (p = [] \<or> Phone p = Inr p) \<longrightarrow>
      add_contact (n # p # rest) book
        = (Inr (lit ''Contact added.''),
           book @ [(n, \<lparr>name = n, phones = (if p = [] then [] else [p]), birthday = None\<rparr>)])"
    by (auto simp: add_contact_new Record_init_def)
  have b: "find n book = Some r \<longrightarrow> (p = [] \<or> Phone p = Inr p) \<longrightarrow>
      add_contact (n # p # rest) book
        = (Inr (lit ''Contact updated.''),
           dict_set n (r\<lparr>phones := phones r @ (if p = [] then [] else [p])\<rparr>) book)
      \<and> map fst (snd (add_contact (n # p # rest) book)) = map fst book"
  proof (intro impI)
    assume f: "find n book = Some r" and ok: "p = [] \<or> Phone p = Inr p"
    from f have g: "dict_get book n = Some r" by (simp add: find_def)
    show "add_contact (n # p # rest) book
        = (Inr (lit ''Contact updated.''),
           dict_set n (r\<lparr>phones := phones r @ (if p = [] then [] else [p])\<rparr>) book)
      \<and> map fst (snd (add_contact (n # p # rest) book)) = map fst book"
    proof (cases "p = []")
      case True
      with f g show ?thesis by (simp add: add_contact_existing dict_set_same)
    next
      case False
      with ok f g show ?thesis by (simp add: add_contact_existing dict_set_keys)
    qed
  qed
  have c: "find n book = None \<longrightarrow> Phone pa = Inr pa \<longrightarrow> Phone pb = Inr pb \<longrightarrow>
      (\<exists>book1 book2.
         add_contact (n # pa # rest_a) book = (Inr (lit ''Contact added.''), book1)
         \<and> add_contact (n # pb # rest_b) book1 = (Inr (lit ''Contact updated.''), book2)
         \<and> book2 = book @ [(n, \<lparr>name = n, phones = [pa, pb], birthday = None\<rparr>)]
         \<and> find n book2 = Some \<lparr>name = n, phones = [pa, pb], birthday = None\<rparr>
         \<and> length (filter (\<lambda>kv. fst kv = n) book2) = 1)"
  proof (intro impI)
    assume f: "find n book = None" and pa: "Phone pa = Inr pa" and pb: "Phone pb = Inr pb"
    from f have g: "dict_get book n = None" by (simp add: find_def)
    let ?r1 = "\<lparr>name = n, phones = [pa], birthday = None\<rparr>"
    let ?r2 = "\<lparr>name = n, phones = [pa, pb], birthday = None\<rparr>"
    let ?b1 = "book @ [(n, ?r1)]"
    let ?b2 = "book @ [(n, ?r2)]"
    from pa pb have ne: "pa \<noteq> []" "pb \<noteq> []" by (auto dest: Phone_Inr)
    have s1: "add_contact (n # pa # rest_a) book = (Inr (lit ''Contact added.''), ?b1)"
      using f pa ne by (simp add: add_contact_new)
    have f1: "find n ?b1 = Some ?r1"
      using g by (simp add: find_def dict_get_append_absent)
    have "dict_set n ?r2 ?b1 = ?b2"
      using dict_set_set [of n ?r2 ?r1 book] g by (simp add: dict_set_absent [symmetric])
    with f1 pb ne have s2: "add_contact (n # pb # rest_b) ?b1 = (Inr (lit ''Contact updated.''), ?b2)"
      by (simp add: add_contact_existing)
    have f2: "find n ?b2 = Some ?r2"
      using g by (simp add: find_def dict_get_append_absent)
    have k: "length (filter (\<lambda>kv. fst kv = n) ?b2) = 1"
      using dict_get_None_keys [OF g] by simp
    from s1 s2 f2 k show "\<exists>book1 book2.
         add_contact (n # pa # rest_a) book = (Inr (lit ''Contact added.''), book1)
         \<and> add_contact (n # pb # rest_b) book1 = (Inr (lit ''Contact updated.''), book2)
         \<and> book2 = book @ [(n, \<lparr>name = n, phones = [pa, pb], birthday = None\<rparr>)]
         \<and> find n book2 = Some \<lparr>name = n, phones = [pa, pb], birthday = None\<rparr>
         \<and> length (filter (\<lambda>kv. fst kv = n) book2) = 1"
      by blast
  qed
  show ?thesis by (intro conjI) (rule f k a b c i1 i2)+
qed

lemma lit_1: "Phone (lit ''1111111111'') = Inr (lit ''1111111111'')"
  by (simp add: Phone_def isdigit_def lit_def isdigit_char_ascii ascii_digit_def)

lemma lit_2: "Phone (lit ''2222222222'') = Inr (lit ''2222222222'')"
  by (simp add: Phone_def isdigit_def lit_def isdigit_char_ascii ascii_digit_def)

theorem add_contact_rule_witness:
  "find (lit ''Ann'') [] = None
   \<and> Phone (lit ''1111111111'') = Inr (lit ''1111111111'')
   \<and> Phone (lit ''2222222222'') = Inr (lit ''2222222222'')
   \<and> add_contact [lit ''Ann'', lit ''1111111111''] []
       = (Inr (lit ''Contact added.''),
          [(lit ''Ann'', \<lparr>name = lit ''Ann'', phones = [lit ''1111111111''], birthday = None\<rparr>)])
   \<and> find (lit ''Ann'')
        [(lit ''Ann'', \<lparr>name = lit ''Ann'', phones = [lit ''1111111111''], birthday = None\<rparr>)]
       = Some \<lparr>name = lit ''Ann'', phones = [lit ''1111111111''], birthday = None\<rparr>
   \<and> add_contact [lit ''Ann'', lit ''2222222222'']
        [(lit ''Ann'', \<lparr>name = lit ''Ann'', phones = [lit ''1111111111''], birthday = None\<rparr>)]
       = (Inr (lit ''Contact updated.''),
          [(lit ''Ann'', \<lparr>name = lit ''Ann'', phones = [lit ''1111111111'', lit ''2222222222''],
              birthday = None\<rparr>)])
   \<and> (\<exists>book1 book2.
         add_contact [lit ''Ann'', lit ''1111111111''] [] = (Inr (lit ''Contact added.''), book1)
         \<and> add_contact [lit ''Ann'', lit ''2222222222''] book1
             = (Inr (lit ''Contact updated.''), book2)
         \<and> find (lit ''Ann'') book2
             = Some \<lparr>name = lit ''Ann'', phones = [lit ''1111111111'', lit ''2222222222''],
                  birthday = None\<rparr>
         \<and> length (filter (\<lambda>kv. fst kv = lit ''Ann'') book2) = 1)
   \<and> lit ''12-34'' \<noteq> [] \<and> Phone (lit ''12-34'') \<noteq> Inr (lit ''12-34'')
   \<and> fst (add_contact [lit ''Ann'', lit ''12-34''] []) = Inr (lit ''Provide correct data.'')
   \<and> add_contact [lit ''Ann'', lit ''12-34'']
        [(lit ''Ann'', \<lparr>name = lit ''Ann'', phones = [lit ''1111111111''], birthday = None\<rparr>)]
       = (Inr (lit ''Provide correct data.''),
          [(lit ''Ann'', \<lparr>name = lit ''Ann'', phones = [lit ''1111111111''], birthday = None\<rparr>)])"
proof -
  let ?n = "lit ''Ann''"
  let ?r1 = "\<lparr>name = ?n, phones = [lit ''1111111111''], birthday = None\<rparr>"
  let ?r2 = "\<lparr>name = ?n, phones = [lit ''1111111111'', lit ''2222222222''], birthday = None\<rparr>"
  have h1: "find ?n [] = None" by (simp add: find_def)
  have h2: "find ?n [(?n, ?r1)] = Some ?r1" by (simp add: find_def)
  have h3: "lit ''12-34'' \<noteq> []" "Phone (lit ''12-34'') \<noteq> Inr (lit ''12-34'')"
    by (simp_all add: lit_def Phone_def)
  have ne: "lit ''1111111111'' \<noteq> []" "lit ''2222222222'' \<noteq> []"
    by (simp_all add: lit_def)
  note first = add_contact_rule [where n = ?n and book = "[]" and p = "lit ''1111111111''"
      and rest = "[]" and pa = "lit ''1111111111''" and pb = "lit ''2222222222''"
      and rest_a = "[]" and rest_b = "[]" and bad = "lit ''12-34''" and rest_bad = "[]"]
  note second = add_contact_rule [where n = ?n and book = "[(?n, ?r1)]"
      and p = "lit ''2222222222''" and rest = "[]" and r = ?r1 and bad = "lit ''12-34''"
      and rest_bad = "[]"]
  from first [THEN conjunct2, THEN conjunct2, THEN conjunct1, rule_format, OF h1 disjI2 [OF lit_1]]
  have c1: "add_contact [?n, lit ''1111111111''] [] = (Inr (lit ''Contact added.''), [(?n, ?r1)])"
    using ne by simp
  from second [THEN conjunct2, THEN conjunct2, THEN conjunct2, THEN conjunct1, rule_format,
      OF h2 disjI2 [OF lit_2], THEN conjunct1]
  have c2: "add_contact [?n, lit ''2222222222''] [(?n, ?r1)]
       = (Inr (lit ''Contact updated.''), [(?n, ?r2)])"
    using ne by simp
  from first [THEN conjunct2, THEN conjunct2, THEN conjunct2, THEN conjunct2, THEN conjunct1,
      rule_format, OF h1 lit_1 lit_2]
  obtain book1 book2 where two:
    "add_contact [?n, lit ''1111111111''] [] = (Inr (lit ''Contact added.''), book1)"
    "add_contact [?n, lit ''2222222222''] book1 = (Inr (lit ''Contact updated.''), book2)"
    "find ?n book2 = Some ?r2"
    "length (filter (\<lambda>kv. fst kv = ?n) book2) = 1"
    by blast
  have c3: "\<exists>book1 book2.
         add_contact [?n, lit ''1111111111''] [] = (Inr (lit ''Contact added.''), book1)
         \<and> add_contact [?n, lit ''2222222222''] book1 = (Inr (lit ''Contact updated.''), book2)
         \<and> find ?n book2 = Some ?r2
         \<and> length (filter (\<lambda>kv. fst kv = ?n) book2) = 1"
    using two by blast
  have c4: "fst (add_contact [?n, lit ''12-34''] []) = Inr (lit ''Provide correct data.'')"
    by (rule first [THEN conjunct2, THEN conjunct2, THEN conjunct2, THEN conjunct2,
          THEN conjunct2, THEN conjunct1, rule_format, OF h1 h3])
  have c5: "add_contact [?n, lit ''12-34''] [(?n, ?r1)]
      = (Inr (lit ''Provide correct data.''), [(?n, ?r1)])"
    by (rule second [THEN conjunct2, THEN conjunct2, THEN conjunct2, THEN conjunct2,
          THEN conjunct2, THEN conjunct2, rule_format, OF h2 h3])
  show ?thesis by (intro conjI) (rule h1 h2 h3 lit_1 lit_2 c1 c2 c3 c4 c5)+
qed

text \<open>
  C7, as stated, fails: with the phone text 12-34, which is not a valid phone number,
  the first call for a name answers ``Provide correct data.'', not ``Contact added.'',
  and a call for a name in the book answers ``Provide correct data.'', not
  ``Contact updated.''.
\<close>

theorem add_contact_answer_counterexample:
  "find (lit ''Ann'') [] = None
   \<and> add_contact [lit ''Ann'', lit ''12-34''] []
       = (Inr (lit ''Provide correct data.''),
          [(lit ''Ann'', \<lparr>name = lit ''Ann'', phones = [], birthday = None\<rparr>)])
   \<and> find (lit ''Ann'')
        [(lit ''Ann'', \<lparr>name = lit ''Ann'', phones = [lit ''1111111111''], birthday = None\<rparr>)]
       = Some \<lparr>name = lit ''Ann'', phones = [lit ''1111111111''], birthday = None\<rparr>
   \<and> add_contact [lit ''Ann'', lit ''12-34'']
        [(lit ''Ann'', \<lparr>name = lit ''Ann'', phones = [lit ''1111111111''], birthday = None\<rparr>)]
       = (Inr (lit ''Provide correct data.''),
          [(lit ''Ann'', \<lparr>name = lit ''Ann'', phones = [lit ''1111111111''], birthday = None\<rparr>)])
   \<and> lit ''Provide correct data.'' \<noteq> lit ''Contact added.''
   \<and> lit ''Provide correct data.'' \<noteq> lit ''Contact updated.''"
  by (simp add: find_def add_contact_def add_record_def Record_init_def add_phone_def Phone_def
      input_error_def store_def lit_def)

text \<open>
  C10, as the code has it. For a name not in the book and a non-empty phone text that
  is not a valid phone number, \<open>add_contact\<close> answers ``Provide correct data.'', and
  the book has gained a record for that name with no phones.
\<close>

theorem add_contact_invalid_phone:
  "find n book = None \<Longrightarrow> p \<noteq> [] \<Longrightarrow> Phone p \<noteq> Inr p \<Longrightarrow>
     add_contact (n # p # rest) book
       = (Inr (lit ''Provide correct data.''),
          book @ [(n, \<lparr>name = n, phones = [], birthday = None\<rparr>)])
     \<and> find n (snd (add_contact (n # p # rest) book))
         = Some \<lparr>name = n, phones = [], birthday = None\<rparr>"
  by (simp add: add_contact_new Record_init_def find_def dict_get_append_absent)

theorem add_contact_invalid_phone_witness:
  "find (lit ''Ann'') [] = None \<and> lit ''12-34'' \<noteq> [] \<and> Phone (lit ''12-34'') \<noteq> Inr (lit ''12-34'')
   \<and> add_contact [lit ''Ann'', lit ''12-34''] []
       = (Inr (lit ''Provide correct data.''),
          [(lit ''Ann'', \<lparr>name = lit ''Ann'', phones = [], birthday = None\<rparr>)])"
proof -
  have h: "find (lit ''Ann'') [] = None" "lit ''12-34'' \<noteq> []"
    "Phone (lit ''12-34'') \<noteq> Inr (lit ''12-34'')"
    by (simp_all add: find_def lit_def Phone_def)
  from add_contact_invalid_phone [OF h, of "[]"] h show ?thesis by simp
qed

text \<open>
  C10, as stated, fails for the empty phone text: it is not a valid phone number, but
  \<open>add_contact\<close> does not try to add an empty phone and answers ``Contact added.''.
\<close>

theorem add_contact_empty_phone_counterexample:
  "find (lit ''Ann'') [] = None
   \<and> Phone [] = Inl (ValueError ''Phone number must contain exactly 10 digits'')
   \<and> add_contact [lit ''Ann'', []] []
       = (Inr (lit ''Contact added.''),
          [(lit ''Ann'', \<lparr>name = lit ''Ann'', phones = [], birthday = None\<rparr>)])
   \<and> lit ''Contact added.'' \<noteq> lit ''Provide correct data.''"
  by (simp add: find_def Phone_def isdigit_def add_contact_def add_record_def Record_init_def
      input_error_def lit_def)

section \<open>Upcoming birthdays\<close>

lemma lit_date: "lit ''01.01.2000'' = [48, 49, 46, 48, 49, 46, 50, 48, 48, 48]"
  by (simp add: lit_def)

lemma date_new_valid:
  "valid_date \<lparr>year = y, month = m, day = d\<rparr> \<Longrightarrow>
     date_new y m d = Inr \<lparr>year = y, month = m, day = d\<rparr>"
  by (simp add: date_new_def valid_date_def)

lemma date_new_invalid:
  "\<not> valid_date \<lparr>year = y, month = m, day = d\<rparr> \<Longrightarrow> \<exists>msg. date_new y m d = Inl (ValueError msg)"
  by (auto simp: date_new_def valid_date_def)

lemma date_new_Inr:
  "date_new y m d = Inr dt \<Longrightarrow> valid_date dt \<and> dt = \<lparr>year = y, month = m, day = d\<rparr>"
  by (auto simp: date_new_def valid_date_def split: if_splits)

lemma date_new_Inl: "date_new y m d = Inl e \<Longrightarrow> \<exists>msg. e = ValueError msg"
  by (auto simp: date_new_def split: if_splits)

lemma strptime_valid: "strptime v = Inr bd \<Longrightarrow> valid_date bd"
  by (auto simp: strptime_def split: list.splits if_splits dest: date_new_Inr)

lemma strptime_Inl: "strptime v = Inl e \<Longrightarrow> \<exists>msg. e = ValueError msg"
  by (auto simp: strptime_def split: list.splits if_splits dest: date_new_Inl)

lemma date_year_update: "bd\<lparr>year := y\<rparr> = \<lparr>year = y, month = month bd, day = day bd\<rparr>"
  by simp

lemma replace_year_valid:
  "valid_date (bd\<lparr>year := y\<rparr>) \<Longrightarrow> replace_year bd y = Inr (bd\<lparr>year := y\<rparr>)"
  using date_new_valid [of y "month bd" "day bd"] by (simp add: replace_year_def date_year_update)

lemma replace_year_invalid:
  "\<not> valid_date (bd\<lparr>year := y\<rparr>) \<Longrightarrow> \<exists>msg. replace_year bd y = Inl (ValueError msg)"
  using date_new_invalid [of y "month bd" "day bd"] by (simp add: replace_year_def date_year_update)

lemma replace_year_Inr: "replace_year bd y = Inr dt \<Longrightarrow> valid_date dt \<and> dt = bd\<lparr>year := y\<rparr>"
  by (auto simp: replace_year_def dest: date_new_Inr)

lemma replace_year_Inl: "replace_year bd y = Inl e \<Longrightarrow> \<exists>msg. e = ValueError msg"
  by (auto simp: replace_year_def dest: date_new_Inl)

lemma upcoming_step_due:
  assumes b: "birthday r = Some v" and s: "strptime v = Inr bd"
    and v1: "valid_date (bd\<lparr>year := year today\<rparr>)" and v2: "valid_date (occurrence today bd)"
  shows "upcoming_step today days r res = Inr (res @ due_entry today days r)"
proof -
  let ?ty = "bd\<lparr>year := year today\<rparr>"
  have r1: "replace_year bd (year today) = Inr ?ty" by (rule replace_year_valid [OF v1])
  have occ: "(if date_less ?ty today then replace_year ?ty (year today + 1) else Inr ?ty)
      = Inr (occurrence today bd)"
  proof (cases "date_less ?ty today")
    case True
    then have o: "occurrence today bd = ?ty\<lparr>year := year today + 1\<rparr>"
      by (simp add: occurrence_def target_year_def)
    with v2 replace_year_valid [where bd = ?ty and y = "year today + 1"] True show ?thesis by simp
  next
    case False
    then show ?thesis by (simp add: occurrence_def target_year_def)
  qed
  from adjust_for_weekend_total [OF v2] obtain c where c: "adjust_for_weekend (occurrence today bd) = Inr c"
    by blast
  show ?thesis
    unfolding upcoming_step_def due_entry_def
    by (simp add: b s r1 occ c)
qed

lemma upcoming_step_none: "birthday r = None \<Longrightarrow> upcoming_step today days r res = Inr res"
  by (simp add: upcoming_step_def)

lemma upcoming_step_constructible:
  assumes "constructible today r"
  shows "upcoming_step today days r res = Inr (res @ due_entry today days r)"
proof (cases "birthday r")
  case None
  then show ?thesis by (simp add: upcoming_step_def due_entry_def)
next
  case (Some v)
  with assms obtain bd where "strptime v = Inr bd" "valid_date (bd\<lparr>year := year today\<rparr>)"
    "valid_date (occurrence today bd)"
    by (auto simp: constructible_def split: sum.splits)
  with Some show ?thesis by (rule upcoming_step_due)
qed

lemma upcoming_loop_due:
  "\<forall>r\<in>set rs. constructible today r \<Longrightarrow>
     upcoming_loop today days rs res = Inr (res @ concat (map (due_entry today days) rs))"
proof (induction rs arbitrary: res)
  case Nil
  then show ?case by simp
next
  case (Cons r rs)
  then have "upcoming_step today days r res = Inr (res @ due_entry today days r)"
    by (simp add: upcoming_step_constructible)
  with Cons show ?case by simp
qed

lemma upcoming_step_error:
  assumes "upcoming_step today days r res = Inl e"
  shows "\<exists>msg. e = ValueError msg"
proof (cases "birthday r")
  case None
  with assms show ?thesis by (simp add: upcoming_step_def)
next
  case (Some v)
  show ?thesis
  proof (cases "strptime v")
    case (Inl e1)
    with Some assms strptime_Inl [OF Inl] show ?thesis by (simp add: upcoming_step_def)
  next
    case (Inr bd)
    show ?thesis
    proof (cases "replace_year bd (year today)")
      case (Inl e2)
      with Some Inr assms replace_year_Inl [OF Inl] show ?thesis by (simp add: upcoming_step_def)
    next
      case r1: (Inr this)
      let ?next = "if date_less this today then replace_year this (year today + 1) else Inr this"
      show ?thesis
      proof (cases ?next)
        case (Inl e3)
        then have "\<exists>msg. e3 = ValueError msg"
          by (auto split: if_splits dest: replace_year_Inl)
        with Some Inr r1 Inl assms show ?thesis by (simp add: upcoming_step_def)
      next
        case r2: (Inr occ)
        then have "valid_date occ"
          using replace_year_Inr [OF r1] by (auto split: if_splits dest: replace_year_Inr)
        from adjust_for_weekend_total [OF this] obtain c where "adjust_for_weekend occ = Inr c"
          by blast
        with Some Inr r1 r2 assms show ?thesis by (simp add: upcoming_step_def)
      qed
    qed
  qed
qed

lemma upcoming_loop_error:
  "upcoming_loop today days rs res = Inl e \<Longrightarrow> \<exists>msg. e = ValueError msg"
proof (induction rs arbitrary: res)
  case Nil
  then show ?case by simp
next
  case (Cons r rs)
  show ?case
  proof (cases "upcoming_step today days r res")
    case (Inl e1)
    with Cons.prems upcoming_step_error [OF Inl] show ?thesis by simp
  next
    case (Inr res')
    with Cons show ?thesis by simp
  qed
qed

lemma upcoming_loop_fails:
  assumes "r \<in> set rs" and "\<And>res. \<exists>e. upcoming_step today days r res = Inl e"
  shows "\<exists>msg. upcoming_loop today days rs res = Inl (ValueError msg)"
  using assms(1)
proof (induction rs arbitrary: res)
  case Nil
  then show ?case by simp
next
  case (Cons x rs)
  show ?case
  proof (cases "upcoming_step today days x res")
    case (Inl e1)
    with upcoming_step_error [OF Inl] show ?thesis by auto
  next
    case (Inr res')
    with assms(2) [of res] have "x \<noteq> r" by auto
    with Cons.prems have "r \<in> set rs" by simp
    from Cons.IH [OF this, of res'] Inr show ?thesis by simp
  qed
qed


lemma lit_date2: "lit ''29.02.2020'' = [50, 57, 46, 48, 50, 46, 50, 48, 50, 48]"
  by (simp add: lit_def)

lemma dec_ascii: "isdecimal_char 48" "isdecimal_char 49" "isdecimal_char 50" "isdecimal_char 57"
  by (simp_all add: isdecimal_char_def decimal_value_ascii)

lemma strptime_2000: "strptime (lit ''01.01.2000'') = Inr \<lparr>year = 2000, month = 1, day = 1\<rparr>"
  by (simp add: lit_date strptime_def re_dmY_def between_def re_Y_def dec_ascii int_of_group_def
      digit_of_def decimal_value_ascii date_new_def days_in_month_def)

lemma strptime_2020: "strptime (lit ''29.02.2020'') = Inr \<lparr>year = 2020, month = 2, day = 29\<rparr>"
  by (simp add: lit_date2 strptime_def re_dmY_def between_def re_Y_def dec_ascii int_of_group_def
      digit_of_def decimal_value_ascii date_new_def days_in_month_def is_leap_def)

lemma strftime_2025: "strftime \<lparr>year = 2025, month = 1, day = 1\<rparr> = lit ''01.01.2025''"
  by (simp add: strftime_def pad2_def lit_def)

lemma upcoming_example:
  "get_upcoming_birthdays \<lparr>year = 2024, month = 12, day = 30\<rparr> 7
     [(n, \<lparr>name = n, phones = ps, birthday = Some (lit ''01.01.2000'')\<rparr>)]
   = Inr [(n, lit ''01.01.2025'')]"
  by (simp add: get_upcoming_birthdays_def dict_values_def upcoming_step_def strptime_2000
      replace_year_def date_new_def days_in_month_def date_less_def adjust_for_weekend_def
      weekday_def toordinal_def days_before_year_def days_before_month_def is_leap_def
      days_between_def strftime_2025)

lemma upcoming_step_not_constructible:
  assumes "\<not> constructible today r"
  shows "\<exists>e. upcoming_step today days r res = Inl e"
proof -
  from assms obtain v where b: "birthday r = Some v"
    by (cases "birthday r") (auto simp: constructible_def)
  show ?thesis
  proof (cases "strptime v")
    case (Inl e)
    with b show ?thesis by (simp add: upcoming_step_def)
  next
    case (Inr bd)
    let ?ty = "bd\<lparr>year := year today\<rparr>"
    from assms b Inr have nv: "\<not> valid_date ?ty \<or> \<not> valid_date (occurrence today bd)"
      by (simp add: constructible_def)
    show ?thesis
    proof (cases "valid_date ?ty")
      case False
      from replace_year_invalid [OF False] obtain msg
        where "replace_year bd (year today) = Inl (ValueError msg)" by blast
      with b Inr show ?thesis by (simp add: upcoming_step_def)
    next
      case True
      with nv have no: "\<not> valid_date (occurrence today bd)" by simp
      with True have past: "date_less ?ty today"
        by (auto simp: occurrence_def target_year_def split: if_splits)
      with no have "\<not> valid_date (?ty\<lparr>year := year today + 1\<rparr>)"
        by (simp add: occurrence_def target_year_def)
      from replace_year_invalid [OF this] obtain msg
        where "replace_year ?ty (year today + 1) = Inl (ValueError msg)" by blast
      with b Inr past replace_year_valid [OF True] show ?thesis
        by (simp add: upcoming_step_def)
    qed
  qed
qed

text \<open>
  C1, as the code has it. When the occurrences of every stored birthday exist in the
  calendar, the query succeeds, and its result is, in the order of the book, what each
  record contributes by the rule of the specification: for a record with a birthday,
  the occurrence in the target year (this year, or next year when this year's
  occurrence is before today), adjusted for the weekend, is reported exactly when it
  lies between 0 and \<open>days\<close> days after today, both ends included; a record without
  birthday contributes nothing. When the occurrences of some record do not exist, the
  query fails with a \<open>ValueError\<close> and reports no record at all. A record with
  birthday 01.01.2000, queried on 30.12.2024 with 7 days, is reported with the
  congratulation date 01.01.2025.
\<close>

theorem upcoming_birthdays_rule:
  "((\<forall>r\<in>set (dict_values book). constructible today r) \<longrightarrow>
      get_upcoming_birthdays today days book
        = Inr (concat (map (due_entry today days) (dict_values book))))
   \<and> ((\<exists>r\<in>set (dict_values book). \<not> constructible today r) \<longrightarrow>
      (\<exists>msg. get_upcoming_birthdays today days book = Inl (ValueError msg)))
   \<and> get_upcoming_birthdays \<lparr>year = 2024, month = 12, day = 30\<rparr> 7
        [(n, \<lparr>name = n, phones = ps, birthday = Some (lit ''01.01.2000'')\<rparr>)]
        = Inr [(n, lit ''01.01.2025'')]"
proof -
  have a: "(\<forall>r\<in>set (dict_values book). constructible today r) \<longrightarrow>
      get_upcoming_birthdays today days book
        = Inr (concat (map (due_entry today days) (dict_values book)))"
    using upcoming_loop_due [of "dict_values book" today days "[]"]
    by (simp add: get_upcoming_birthdays_def)
  have b: "(\<exists>r\<in>set (dict_values book). \<not> constructible today r) \<longrightarrow>
      (\<exists>msg. get_upcoming_birthdays today days book = Inl (ValueError msg))"
  proof
    assume "\<exists>r\<in>set (dict_values book). \<not> constructible today r"
    then obtain r where r: "r \<in> set (dict_values book)" "\<not> constructible today r" by blast
    show "\<exists>msg. get_upcoming_birthdays today days book = Inl (ValueError msg)"
      unfolding get_upcoming_birthdays_def
      using r(1) upcoming_step_not_constructible [OF r(2)]
      by (rule upcoming_loop_fails)
  qed
  from a b upcoming_example [of n ps] show ?thesis by blast
qed

lemma lit_date6: "lit ''04.03.1990'' = [48, 52, 46, 48, 51, 46, 49, 57, 57, 48]"
  by (simp add: lit_def)

lemma strptime_1990: "strptime (lit ''04.03.1990'') = Inr \<lparr>year = 1990, month = 3, day = 4\<rparr>"
  by (simp add: lit_date6 strptime_def re_dmY_def between_def re_Y_def dec_ascii int_of_group_def
      digit_of_def decimal_value_ascii date_new_def days_in_month_def isdecimal_char_def)

lemma strftime_0403: "strftime \<lparr>year = 2025, month = 3, day = 4\<rparr> = lit ''04.03.2025''"
  by (simp add: strftime_def pad2_def lit_def)

lemma due_Bob:
  "due_entry \<lparr>year = 2025, month = 3, day = 3\<rparr> 7
     \<lparr>name = lit ''Bob'', phones = [], birthday = Some (lit ''04.03.1990'')\<rparr>
   = [(lit ''Bob'', lit ''04.03.2025'')]"
proof -
  have occ: "occurrence \<lparr>year = 2025, month = 3, day = 3\<rparr> \<lparr>year = 1990, month = 3, day = 4\<rparr>
      = \<lparr>year = 2025, month = 3, day = 4\<rparr>"
    by (simp add: occurrence_def target_year_def date_less_def)
  have wd: "weekday \<lparr>year = 2025, month = 3, day = 4\<rparr> = 1"
    by (simp add: weekday_def toordinal_def days_before_year_def days_before_month_def
        is_leap_def)
  show ?thesis
    by (simp add: due_entry_def strptime_1990 occ adjust_for_weekend_def wd days_between_def
        toordinal_def days_before_year_def days_before_month_def is_leap_def strftime_0403)
qed

lemma not_constructible_Ann:
  "\<not> constructible \<lparr>year = 2025, month = 3, day = 3\<rparr>
       \<lparr>name = lit ''Ann'', phones = [], birthday = Some (lit ''29.02.2020'')\<rparr>"
  by (simp add: constructible_def strptime_2020 valid_date_def days_in_month_def is_leap_def)

theorem upcoming_birthdays_rule_witness:
  "constructible \<lparr>year = 2024, month = 12, day = 30\<rparr>
     \<lparr>name = lit ''Ann'', phones = [], birthday = Some (lit ''01.01.2000'')\<rparr>
   \<and> constructible \<lparr>year = 2024, month = 12, day = 30\<rparr>
     \<lparr>name = lit ''Bob'', phones = [], birthday = None\<rparr>
   \<and> get_upcoming_birthdays \<lparr>year = 2024, month = 12, day = 30\<rparr> 7
       [(lit ''Ann'', \<lparr>name = lit ''Ann'', phones = [], birthday = Some (lit ''01.01.2000'')\<rparr>),
        (lit ''Bob'', \<lparr>name = lit ''Bob'', phones = [], birthday = None\<rparr>)]
     = Inr [(lit ''Ann'', lit ''01.01.2025'')]
   \<and> \<not> constructible \<lparr>year = 2025, month = 3, day = 3\<rparr>
       \<lparr>name = lit ''Ann'', phones = [], birthday = Some (lit ''29.02.2020'')\<rparr>
   \<and> (\<exists>msg. get_upcoming_birthdays \<lparr>year = 2025, month = 3, day = 3\<rparr> 7
        [(lit ''Bob'', \<lparr>name = lit ''Bob'', phones = [], birthday = Some (lit ''04.03.1990'')\<rparr>),
         (lit ''Ann'', \<lparr>name = lit ''Ann'', phones = [], birthday = Some (lit ''29.02.2020'')\<rparr>)]
       = Inl (ValueError msg))"
proof -
  let ?T = "\<lparr>year = 2024, month = 12, day = 30\<rparr>"
  let ?a = "\<lparr>name = lit ''Ann'', phones = [], birthday = Some (lit ''01.01.2000'')\<rparr>"
  let ?b = "\<lparr>name = lit ''Bob'', phones = [], birthday = None\<rparr>"
  let ?U = "\<lparr>year = 2025, month = 3, day = 3\<rparr>"
  let ?c = "\<lparr>name = lit ''Bob'', phones = [], birthday = Some (lit ''04.03.1990'')\<rparr>"
  let ?d = "\<lparr>name = lit ''Ann'', phones = [], birthday = Some (lit ''29.02.2020'')\<rparr>"
  have occ: "occurrence ?T \<lparr>year = 2000, month = 1, day = 1\<rparr> = \<lparr>year = 2025, month = 1, day = 1\<rparr>"
    by (simp add: occurrence_def target_year_def date_less_def)
  have ca: "constructible ?T ?a"
    by (simp add: constructible_def strptime_2000 occ valid_date_def days_in_month_def)
  have cb: "constructible ?T ?b" by (simp add: constructible_def)
  have h: "\<forall>r\<in>set (dict_values [(lit ''Ann'', ?a), (lit ''Bob'', ?b)]). constructible ?T r"
    using ca cb by (simp add: dict_values_def)
  have wd: "weekday \<lparr>year = 2025, month = 1, day = 1\<rparr> = 2"
    by (simp add: weekday_def toordinal_def days_before_year_def days_before_month_def
        is_leap_def)
  have da: "due_entry ?T 7 ?a = [(lit ''Ann'', lit ''01.01.2025'')]"
    by (simp add: due_entry_def strptime_2000 occ adjust_for_weekend_def wd days_between_def
        toordinal_def days_before_year_def days_before_month_def is_leap_def strftime_2025)
  have db: "due_entry ?T 7 ?b = []" by (simp add: due_entry_def)
  from upcoming_birthdays_rule [of "[(lit ''Ann'', ?a), (lit ''Bob'', ?b)]" ?T 7] h
  have "get_upcoming_birthdays ?T 7 [(lit ''Ann'', ?a), (lit ''Bob'', ?b)]
      = Inr (concat (map (due_entry ?T 7) (dict_values [(lit ''Ann'', ?a), (lit ''Bob'', ?b)])))"
    by blast
  with da db have pos: "get_upcoming_birthdays ?T 7 [(lit ''Ann'', ?a), (lit ''Bob'', ?b)]
      = Inr [(lit ''Ann'', lit ''01.01.2025'')]"
    by (simp add: dict_values_def)
  have g: "\<exists>r\<in>set (dict_values [(lit ''Bob'', ?c), (lit ''Ann'', ?d)]). \<not> constructible ?U r"
    using not_constructible_Ann by (simp add: dict_values_def)
  from upcoming_birthdays_rule [of "[(lit ''Bob'', ?c), (lit ''Ann'', ?d)]" ?U 7] g
  have neg: "\<exists>msg. get_upcoming_birthdays ?U 7 [(lit ''Bob'', ?c), (lit ''Ann'', ?d)]
      = Inl (ValueError msg)"
    by blast
  from ca cb pos not_constructible_Ann neg show ?thesis by blast
qed

text \<open>
  C1, as stated, fails: on 03.03.2025 the birthday 04.03.1990 falls due the next day, a
  Tuesday, so the rule includes its record; but the book also holds a birthday
  29.02.2020, the query raises when it replaces the year, and no record is reported.
\<close>

theorem upcoming_birthdays_counterexample:
  "adjust_for_weekend \<lparr>year = 2025, month = 3, day = 4\<rparr> = Inr \<lparr>year = 2025, month = 3, day = 4\<rparr>
   \<and> days_between \<lparr>year = 2025, month = 3, day = 4\<rparr> \<lparr>year = 2025, month = 3, day = 3\<rparr> = 1
   \<and> due_entry \<lparr>year = 2025, month = 3, day = 3\<rparr> 7
        \<lparr>name = lit ''Bob'', phones = [], birthday = Some (lit ''04.03.1990'')\<rparr>
      = [(lit ''Bob'', lit ''04.03.2025'')]
   \<and> get_upcoming_birthdays \<lparr>year = 2025, month = 3, day = 3\<rparr> 7
        [(lit ''Ann'', \<lparr>name = lit ''Ann'', phones = [], birthday = Some (lit ''29.02.2020'')\<rparr>),
         (lit ''Bob'', \<lparr>name = lit ''Bob'', phones = [], birthday = Some (lit ''04.03.1990'')\<rparr>)]
      = Inl (ValueError ''day is out of range for month'')"
proof -
  have wd: "weekday \<lparr>year = 2025, month = 3, day = 4\<rparr> = 1"
    by (simp add: weekday_def toordinal_def days_before_year_def days_before_month_def
        is_leap_def)
  have a: "adjust_for_weekend \<lparr>year = 2025, month = 3, day = 4\<rparr>
      = Inr \<lparr>year = 2025, month = 3, day = 4\<rparr>"
    by (simp add: adjust_for_weekend_def wd)
  have b: "days_between \<lparr>year = 2025, month = 3, day = 4\<rparr> \<lparr>year = 2025, month = 3, day = 3\<rparr> = 1"
    by (simp add: days_between_def toordinal_def)
  have c: "get_upcoming_birthdays \<lparr>year = 2025, month = 3, day = 3\<rparr> 7
        [(lit ''Ann'', \<lparr>name = lit ''Ann'', phones = [], birthday = Some (lit ''29.02.2020'')\<rparr>),
         (lit ''Bob'', \<lparr>name = lit ''Bob'', phones = [], birthday = Some (lit ''04.03.1990'')\<rparr>)]
      = Inl (ValueError ''day is out of range for month'')"
    by (simp add: get_upcoming_birthdays_def dict_values_def upcoming_step_def strptime_2020
        replace_year_def date_new_def days_in_month_def is_leap_def)
  from a b due_Bob c show ?thesis by simp
qed

lemma feb_days: "days_in_month y 2 = (if is_leap y then 29 else 28)"
  by (simp add: days_in_month_def)

lemma leap_day_step_fails:
  assumes s: "strptime v = Inr bd" and b: "birthday r = Some v"
    and m: "month bd = 2" and d: "day bd = 29"
    and t: "\<not> is_leap (target_year today bd)"
  shows "\<exists>e. upcoming_step today days r res = Inl e"
proof (cases "valid_date (bd\<lparr>year := year today\<rparr>)")
  case False
  from replace_year_invalid [OF False] obtain msg
    where "replace_year bd (year today) = Inl (ValueError msg)" by blast
  with s b show ?thesis by (simp add: upcoming_step_def)
next
  case True
  let ?ty = "bd\<lparr>year := year today\<rparr>"
  from True m d have leap: "is_leap (year today)"
    by (simp add: valid_date_def feb_days split: if_splits)
  with t have past: "date_less ?ty today" and nl: "\<not> is_leap (year today + 1)"
    by (auto simp: target_year_def split: if_splits)
  from m d nl have "\<not> valid_date (?ty\<lparr>year := year today + 1\<rparr>)"
    by (simp add: valid_date_def feb_days)
  from replace_year_invalid [OF this] obtain msg
    where "replace_year ?ty (year today + 1) = Inl (ValueError msg)" by blast
  with s b past replace_year_valid [OF True] show ?thesis by (simp add: upcoming_step_def)
qed

text \<open>
  C6. When the book holds a record whose birthday is a 29th of February and the target
  year of that birthday is not a leap year, the query fails with a \<open>ValueError\<close>
  (the year-replaced date cannot be built) for any number of days, and the
  \<open>birthdays\<close> handler answers ``Provide correct data.''.
\<close>

theorem leap_day_fails:
  assumes "r \<in> set (dict_values book)" and "birthday r = Some v" and "strptime v = Inr bd"
    and "month bd = 2" and "day bd = 29" and "\<not> is_leap (target_year today bd)"
  shows "(\<exists>msg. get_upcoming_birthdays today days book = Inl (ValueError msg))
       \<and> birthdays today args book = (Inr (lit ''Provide correct data.''), book)"
proof -
  have f: "\<And>n. \<exists>msg. get_upcoming_birthdays today n book = Inl (ValueError msg)"
    unfolding get_upcoming_birthdays_def
    using assms(1) leap_day_step_fails [OF assms(3) assms(2) assms(4) assms(5) assms(6)]
    by (rule upcoming_loop_fails)
  from f [of 7] obtain msg where "get_upcoming_birthdays today 7 book = Inl (ValueError msg)"
    by blast
  then have "birthdays today args book = (Inr (lit ''Provide correct data.''), book)"
    by (simp add: birthdays_def input_error_def)
  with f [of days] show ?thesis by simp
qed

theorem leap_day_fails_witness:
  "strptime (lit ''29.02.2020'') = Inr \<lparr>year = 2020, month = 2, day = 29\<rparr>
   \<and> \<not> is_leap (target_year \<lparr>year = 2025, month = 3, day = 1\<rparr>
                            \<lparr>year = 2020, month = 2, day = 29\<rparr>)
   \<and> (\<exists>msg. get_upcoming_birthdays \<lparr>year = 2025, month = 3, day = 1\<rparr> 7
         [(lit ''Ann'', \<lparr>name = lit ''Ann'', phones = [], birthday = Some (lit ''29.02.2020'')\<rparr>)]
        = Inl (ValueError msg))"
proof -
  let ?T = "\<lparr>year = 2025, month = 3, day = 1\<rparr>"
  let ?bd = "\<lparr>year = 2020, month = 2, day = 29\<rparr>"
  let ?a = "\<lparr>name = lit ''Ann'', phones = [], birthday = Some (lit ''29.02.2020'')\<rparr>"
  have h1: "?a \<in> set (dict_values [(lit ''Ann'', ?a)])" by (simp add: dict_values_def)
  have h2: "birthday ?a = Some (lit ''29.02.2020'')" by simp
  have h4: "month ?bd = 2" "day ?bd = 29" by simp_all
  have h5: "\<not> is_leap (target_year ?T ?bd)"
    by (simp add: target_year_def date_less_def is_leap_def)
  from leap_day_fails [OF h1 h2 strptime_2020 h4 h5, of 7] strptime_2020 h5
  show ?thesis by simp
qed

section \<open>Error translation in the handlers\<close>

lemma input_error_caught:
  "e \<noteq> OverflowError \<Longrightarrow> \<exists>s. input_error (Inl e, book) = (Inr s, book)"
  by (cases e) (simp_all add: input_error_def)

lemma input_error_outcome:
  assumes "\<And>e. fst outcome = Inl e \<Longrightarrow> e \<noteq> OverflowError"
  shows "\<exists>s. fst (input_error outcome) = Inr s"
proof (cases outcome)
  case (Pair res book)
  show ?thesis
  proof (cases res)
    case (Inl e)
    with Pair assms [of e] input_error_caught [of e book] show ?thesis by auto
  next
    case (Inr s)
    with Pair show ?thesis by (simp add: input_error_def)
  qed
qed

lemma Record_add_birthday_error:
  "Record_add_birthday b r = (Inl e, r') \<Longrightarrow> e \<noteq> OverflowError"
  by (auto simp: Record_add_birthday_def Birthday_def
      split: sum.splits error.splits dest: strptime_Inl)

lemma add_phone_error: "add_phone p r = (Inl e, r') \<Longrightarrow> e \<noteq> OverflowError"
  by (auto simp: add_phone_def Phone_def split: if_splits)

lemma edit_phone_error: "edit_phone old new r = (Inl e, r') \<Longrightarrow> e \<noteq> OverflowError"
  by (auto simp: edit_phone_def Phone_def split: option.splits if_splits)

lemma add_birthday_returns: "\<exists>s. fst (add_birthday args book) = Inr s"
  unfolding add_birthday_def
  by (rule input_error_outcome)
     (auto split: list.splits option.splits prod.splits sum.splits
        dest: Record_add_birthday_error)

lemma show_birthday_returns: "\<exists>s. fst (show_birthday args book) = Inr s"
  unfolding show_birthday_def
  by (rule input_error_outcome) (auto split: list.splits option.splits)

lemma birthdays_returns: "\<exists>s. fst (birthdays today args book) = Inr s"
  unfolding birthdays_def
  by (rule input_error_outcome)
     (auto simp: get_upcoming_birthdays_def split: sum.splits if_splits
        dest: upcoming_loop_error)

lemma add_contact_returns: "\<exists>s. fst (add_contact args book) = Inr s"
  unfolding add_contact_def
  by (rule input_error_outcome)
     (auto split: list.splits option.splits prod.splits sum.splits if_splits
        dest: add_phone_error)

lemma change_contact_returns: "\<exists>s. fst (change_contact args book) = Inr s"
  unfolding change_contact_def
  by (rule input_error_outcome)
     (auto split: list.splits option.splits prod.splits sum.splits
        dest: edit_phone_error)

lemma show_phone_returns: "\<exists>s. fst (show_phone args book) = Inr s"
  unfolding show_phone_def
  by (rule input_error_outcome) (auto split: list.splits option.splits if_splits)

lemma show_all_contacts_returns: "\<exists>s. fst (show_all_contacts args book) = Inr s"
  by (simp add: show_all_contacts_def input_error_def)

text \<open>
  C5, as the code has it. Every handler returns a text for every list of argument
  tokens and every book: no exception passes the decorator. The handlers that look a
  contact up, \<open>change_contact\<close>, \<open>show_phone\<close>, \<open>add_birthday\<close> and
  \<open>show_birthday\<close>, answer ``Contact not found.'' and leave the book as it was when
  they get enough tokens and the name is not in the book. When the contact exists and
  none of its phones equals the old phone, \<open>change_contact\<close> answers
  ``Provide correct data.'', the book unchanged, because the missing phone is raised as
  a \<open>ValueError\<close>.
\<close>

theorem handlers_translate_errors:
  "(\<exists>s. fst (add_birthday args book) = Inr s)
   \<and> (\<exists>s. fst (show_birthday args book) = Inr s)
   \<and> (\<exists>s. fst (birthdays today args book) = Inr s)
   \<and> (\<exists>s. fst (add_contact args book) = Inr s)
   \<and> (\<exists>s. fst (change_contact args book) = Inr s)
   \<and> (\<exists>s. fst (show_phone args book) = Inr s)
   \<and> (\<exists>s. fst (show_all_contacts args book) = Inr s)
   \<and> (find n book = None \<longrightarrow>
        change_contact (n # old_phone # new_phone # rest) book
          = (Inr (lit ''Contact not found.''), book))
   \<and> (find n book = Some r \<longrightarrow> old_phone \<notin> set (phones r) \<longrightarrow>
        change_contact (n # old_phone # new_phone # rest) book
          = (Inr (lit ''Provide correct data.''), book))
   \<and> (find n book = None \<longrightarrow>
        show_phone (n # extra) book = (Inr (lit ''Contact not found.''), book))
   \<and> (find n book = None \<longrightarrow>
        add_birthday (n # b # extra) book = (Inr (lit ''Contact not found.''), book))
   \<and> (find n book = None \<longrightarrow>
        show_birthday (n # extra) book = (Inr (lit ''Contact not found.''), book))"
proof -
  have a: "find n book = None \<longrightarrow>
        change_contact (n # old_phone # new_phone # rest) book
          = (Inr (lit ''Contact not found.''), book)"
    by (simp add: change_contact_def input_error_def)
  have b: "find n book = Some r \<longrightarrow> old_phone \<notin> set (phones r) \<longrightarrow>
        change_contact (n # old_phone # new_phone # rest) book
          = (Inr (lit ''Provide correct data.''), book)"
  proof (intro impI)
    assume f: "find n book = Some r" and o: "old_phone \<notin> set (phones r)"
    from o have "edit_phone old_phone new_phone r = (Inl (ValueError ''Old phone is not exist''), r)"
      by (simp add: edit_phone_def find_phone_def first_index_None [symmetric])
    moreover from f have "store n r book = book"
      by (simp add: store_def find_def dict_set_same)
    ultimately show "change_contact (n # old_phone # new_phone # rest) book
          = (Inr (lit ''Provide correct data.''), book)"
      using f by (simp add: change_contact_def input_error_def)
  qed
  have c: "find n book = None \<longrightarrow>
        show_phone (n # extra) book = (Inr (lit ''Contact not found.''), book)"
    by (simp add: show_phone_def input_error_def)
  have d: "find n book = None \<longrightarrow>
        add_birthday (n # b # extra) book = (Inr (lit ''Contact not found.''), book)"
    by (simp add: add_birthday_def input_error_def)
  have e: "find n book = None \<longrightarrow>
        show_birthday (n # extra) book = (Inr (lit ''Contact not found.''), book)"
    by (simp add: show_birthday_def input_error_def)
  show ?thesis
    by (intro conjI)
       (rule add_birthday_returns show_birthday_returns birthdays_returns add_contact_returns
          change_contact_returns show_phone_returns show_all_contacts_returns a b c d e)+
qed

theorem handlers_translate_errors_witness:
  "find (lit ''Bob'')
     [(lit ''Ann'', \<lparr>name = lit ''Ann'', phones = [lit ''1111111111''], birthday = None\<rparr>)] = None
   \<and> change_contact [lit ''Bob'', lit ''1111111111'', lit ''3333333333'']
       [(lit ''Ann'', \<lparr>name = lit ''Ann'', phones = [lit ''1111111111''], birthday = None\<rparr>)]
     = (Inr (lit ''Contact not found.''),
        [(lit ''Ann'', \<lparr>name = lit ''Ann'', phones = [lit ''1111111111''], birthday = None\<rparr>)])
   \<and> find (lit ''Ann'')
       [(lit ''Ann'', \<lparr>name = lit ''Ann'', phones = [lit ''1111111111''], birthday = None\<rparr>)]
     = Some \<lparr>name = lit ''Ann'', phones = [lit ''1111111111''], birthday = None\<rparr>
   \<and> lit ''2222222222'' \<notin> set [lit ''1111111111'']
   \<and> change_contact [lit ''Ann'', lit ''2222222222'', lit ''3333333333'']
       [(lit ''Ann'', \<lparr>name = lit ''Ann'', phones = [lit ''1111111111''], birthday = None\<rparr>)]
     = (Inr (lit ''Provide correct data.''),
        [(lit ''Ann'', \<lparr>name = lit ''Ann'', phones = [lit ''1111111111''], birthday = None\<rparr>)])
   \<and> show_phone [lit ''Bob'']
       [(lit ''Ann'', \<lparr>name = lit ''Ann'', phones = [lit ''1111111111''], birthday = None\<rparr>)]
     = (Inr (lit ''Contact not found.''),
        [(lit ''Ann'', \<lparr>name = lit ''Ann'', phones = [lit ''1111111111''], birthday = None\<rparr>)])
   \<and> add_birthday [lit ''Bob'', lit ''01.01.2000'']
       [(lit ''Ann'', \<lparr>name = lit ''Ann'', phones = [lit ''1111111111''], birthday = None\<rparr>)]
     = (Inr (lit ''Contact not found.''),
        [(lit ''Ann'', \<lparr>name = lit ''Ann'', phones = [lit ''1111111111''], birthday = None\<rparr>)])
   \<and> show_birthday [lit ''Bob'']
       [(lit ''Ann'', \<lparr>name = lit ''Ann'', phones = [lit ''1111111111''], birthday = None\<rparr>)]
     = (Inr (lit ''Contact not found.''),
        [(lit ''Ann'', \<lparr>name = lit ''Ann'', phones = [lit ''1111111111''], birthday = None\<rparr>)])"
proof -
  let ?a = "\<lparr>name = lit ''Ann'', phones = [lit ''1111111111''], birthday = None\<rparr>"
  let ?book = "[(lit ''Ann'', ?a)]"
  have h1: "find (lit ''Bob'') ?book = None" by (simp add: find_def lit_def)
  have h2: "find (lit ''Ann'') ?book = Some ?a" by (simp add: find_def)
  have h3: "lit ''2222222222'' \<notin> set (phones ?a)" by (simp add: lit_def)
  have h3': "lit ''2222222222'' \<notin> set [lit ''1111111111'']" using h3 by simp
  note unknown = handlers_translate_errors [where n = "lit ''Bob''" and book = ?book
      and old_phone = "lit ''1111111111''" and new_phone = "lit ''3333333333''" and rest = "[]"
      and extra = "[]" and b = "lit ''01.01.2000''",
      THEN conjunct2, THEN conjunct2, THEN conjunct2, THEN conjunct2, THEN conjunct2,
      THEN conjunct2, THEN conjunct2]
  note known = handlers_translate_errors [where n = "lit ''Ann''" and book = ?book and r = ?a
      and old_phone = "lit ''2222222222''" and new_phone = "lit ''3333333333''" and rest = "[]",
      THEN conjunct2, THEN conjunct2, THEN conjunct2, THEN conjunct2, THEN conjunct2,
      THEN conjunct2, THEN conjunct2]
  have c1: "change_contact [lit ''Bob'', lit ''1111111111'', lit ''3333333333''] ?book
     = (Inr (lit ''Contact not found.''), ?book)"
    by (rule unknown [THEN conjunct1, rule_format, OF h1])
  have c2: "change_contact [lit ''Ann'', lit ''2222222222'', lit ''3333333333''] ?book
     = (Inr (lit ''Provide correct data.''), ?book)"
    by (rule known [THEN conjunct2, THEN conjunct1, rule_format, OF h2 h3])
  have c3: "show_phone [lit ''Bob''] ?book = (Inr (lit ''Contact not found.''), ?book)"
    by (rule unknown [THEN conjunct2, THEN conjunct2, THEN conjunct1, rule_format, OF h1])
  have c4: "add_birthday [lit ''Bob'', lit ''01.01.2000''] ?book
     = (Inr (lit ''Contact not found.''), ?book)"
    by (rule unknown [THEN conjunct2, THEN conjunct2, THEN conjunct2, THEN conjunct1,
          rule_format, OF h1])
  have c5: "show_birthday [lit ''Bob''] ?book = (Inr (lit ''Contact not found.''), ?book)"
    by (rule unknown [THEN conjunct2, THEN conjunct2, THEN conjunct2, THEN conjunct2,
          rule_format, OF h1])
  show ?thesis by (intro conjI) (rule h1 h2 h3' c1 c2 c3 c4 c5)+
qed

text \<open>
  C5, as stated, fails: for a contact that exists and has no phone equal to the old
  phone, \<open>change_contact\<close> does not answer ``Contact not found.''.
\<close>

theorem change_contact_missing_phone_counterexample:
  "find (lit ''Ann'')
       [(lit ''Ann'', \<lparr>name = lit ''Ann'', phones = [lit ''1111111111''], birthday = None\<rparr>)]
     = Some \<lparr>name = lit ''Ann'', phones = [lit ''1111111111''], birthday = None\<rparr>
   \<and> find_phone (lit ''2222222222'')
       \<lparr>name = lit ''Ann'', phones = [lit ''1111111111''], birthday = None\<rparr> = None
   \<and> fst (change_contact [lit ''Ann'', lit ''2222222222'', lit ''3333333333'']
       [(lit ''Ann'', \<lparr>name = lit ''Ann'', phones = [lit ''1111111111''], birthday = None\<rparr>)])
     = Inr (lit ''Provide correct data.'')
   \<and> lit ''Provide correct data.'' \<noteq> lit ''Contact not found.''"
  by (simp add: find_def find_phone_def change_contact_def edit_phone_def input_error_def
      store_def lit_def)


section \<open>Rendering a birthday\<close>

lemma Birthday_total:
  "Birthday raw = Inr raw \<or> Birthday raw = Inl (ValueError ''Invalid date format. Use DD.MM.YYYY'')"
  by (auto simp: Birthday_def split: sum.splits error.splits dest: strptime_Inl)

lemma Birthday_Inr: "Birthday raw = Inr b \<Longrightarrow> b = raw"
  using Birthday_total [of raw] by auto

lemma Birthday_iff_strptime: "Birthday raw = Inr raw \<longleftrightarrow> (\<exists>dt. strptime raw = Inr dt)"
  by (auto simp: Birthday_def split: sum.splits error.splits)

text \<open>
  C9, as the code has it. A constructed birthday renders as the text it was given,
  character for character, so it is in the form DD.MM.YYYY exactly when the input was;
  \<open>show_birthday\<close> after \<open>add_birthday\<close> returns the text that was entered.
\<close>

theorem Birthday_renders_input:
  "(Birthday raw = Inr b \<longrightarrow>
      Birthday_str b = raw \<and> (is_DD_MM_YYYY (Birthday_str b) \<longleftrightarrow> is_DD_MM_YYYY raw))
   \<and> (find n book = Some r \<longrightarrow> Birthday raw = Inr raw \<longrightarrow>
      (\<exists>book'. add_birthday (n # raw # rest) book = (Inr (lit ''Birthday added.''), book')
         \<and> show_birthday (n # rest') book' = (Inr raw, book')))"
proof -
  have a: "Birthday raw = Inr b \<longrightarrow>
      Birthday_str b = raw \<and> (is_DD_MM_YYYY (Birthday_str b) \<longleftrightarrow> is_DD_MM_YYYY raw)"
    by (auto simp: Birthday_str_def dest: Birthday_Inr)
  have b: "find n book = Some r \<longrightarrow> Birthday raw = Inr raw \<longrightarrow>
      (\<exists>book'. add_birthday (n # raw # rest) book = (Inr (lit ''Birthday added.''), book')
         \<and> show_birthday (n # rest') book' = (Inr raw, book'))"
  proof (intro impI)
    assume f: "find n book = Some r" and ok: "Birthday raw = Inr raw"
    let ?book = "store n (r\<lparr>birthday := Some raw\<rparr>) book"
    from f ok have "add_birthday (n # raw # rest) book = (Inr (lit ''Birthday added.''), ?book)"
      by (simp add: add_birthday_def Record_add_birthday_def input_error_def)
    moreover have "find n ?book = Some (r\<lparr>birthday := Some raw\<rparr>)"
      by (simp add: find_def store_def dict_get_set)
    then have "show_birthday (n # rest') ?book = (Inr raw, ?book)"
      by (simp add: show_birthday_def input_error_def)
    ultimately show "\<exists>book'. add_birthday (n # raw # rest) book
          = (Inr (lit ''Birthday added.''), book')
         \<and> show_birthday (n # rest') book' = (Inr raw, book')"
      by blast
  qed
  from a b show ?thesis by blast
qed

lemma lit_date3: "lit ''1.2.2020'' = [49, 46, 50, 46, 50, 48, 50, 48]"
  by (simp add: lit_def)

lemma strptime_short:
  "strptime (lit ''1.2.2020'') = Inr \<lparr>year = 2020, month = 2, day = 1\<rparr>"
  by (simp add: lit_date3 strptime_def re_dmY_def between_def re_Y_def dec_ascii int_of_group_def
      digit_of_def decimal_value_ascii date_new_def days_in_month_def is_leap_def
      isdecimal_char_def)

lemma Birthday_short: "Birthday (lit ''1.2.2020'') = Inr (lit ''1.2.2020'')"
  by (simp add: Birthday_def strptime_short)

theorem Birthday_renders_input_witness:
  "Birthday (lit ''1.2.2020'') = Inr (lit ''1.2.2020'')
   \<and> Birthday_str (lit ''1.2.2020'') = lit ''1.2.2020''
   \<and> find (lit ''Ann'') [(lit ''Ann'', \<lparr>name = lit ''Ann'', phones = [], birthday = None\<rparr>)]
       = Some \<lparr>name = lit ''Ann'', phones = [], birthday = None\<rparr>
   \<and> (\<exists>book'. add_birthday [lit ''Ann'', lit ''1.2.2020'']
                [(lit ''Ann'', \<lparr>name = lit ''Ann'', phones = [], birthday = None\<rparr>)]
              = (Inr (lit ''Birthday added.''), book')
         \<and> show_birthday [lit ''Ann''] book' = (Inr (lit ''1.2.2020''), book'))"
proof -
  let ?a = "\<lparr>name = lit ''Ann'', phones = [], birthday = None\<rparr>"
  have h: "find (lit ''Ann'') [(lit ''Ann'', ?a)] = Some ?a" by (simp add: find_def)
  from Birthday_renders_input [where raw = "lit ''1.2.2020''" and b = "lit ''1.2.2020''"
      and n = "lit ''Ann''" and book = "[(lit ''Ann'', ?a)]" and r = ?a and rest = "[]"
      and rest' = "[]"] Birthday_short h
  show ?thesis by blast
qed

text \<open>
  C9, as stated, fails: the text 1.2.2020 is accepted, and it is rendered as 1.2.2020,
  not as 01.02.2020.
\<close>

theorem Birthday_not_canonical_counterexample:
  "Birthday (lit ''1.2.2020'') = Inr (lit ''1.2.2020'')
   \<and> \<not> is_DD_MM_YYYY (Birthday_str (lit ''1.2.2020''))
   \<and> fst (show_birthday [lit ''Ann'']
        [(lit ''Ann'', \<lparr>name = lit ''Ann'', phones = [], birthday = Some (lit ''1.2.2020'')\<rparr>)])
      = Inr (lit ''1.2.2020'')"
  using Birthday_short
  by (simp add: Birthday_str_def is_DD_MM_YYYY_def lit_date3 show_birthday_def find_def
      input_error_def)

section \<open>Birthday texts\<close>

lemma dot_not_decimal: "\<not> isdecimal_char 46" "\<not> isdecimal_char 32"
  by (simp_all add: isdecimal_char_def decimal_value_ascii)

lemma re_d_iff: "(d, r) \<in> set (re_d s) \<longleftrightarrow> s = d @ r \<and> day_text d"
proof (cases s rule: re_d.cases)
  case (1 a b t)
  then show ?thesis
    by (cases d) (auto simp: day_text_def split: list.splits)
next
  case (2 a)
  then show ?thesis
    by (cases d) (auto simp: day_text_def split: list.splits)
next
  case 3
  then show ?thesis by (simp add: day_text_def)
qed

lemma re_m_iff: "(m, r) \<in> set (re_m s) \<longleftrightarrow> s = m @ r \<and> month_text m"
proof (cases s rule: re_m.cases)
  case (1 a b t)
  then show ?thesis
    by (cases m) (auto simp: month_text_def split: list.splits)
next
  case (2 a)
  then show ?thesis
    by (cases m) (auto simp: month_text_def split: list.splits)
next
  case 3
  then show ?thesis by (simp add: month_text_def)
qed

lemma re_dot_iff: "r \<in> set (re_dot s) \<longleftrightarrow> s = 46 # r"
  by (cases s) auto

lemma re_Y_iff: "(y, r) \<in> set (re_Y s) \<longleftrightarrow> s = y @ r \<and> year_text y"
  by (auto simp: re_Y_def year_text_def)

lemma re_dmY_iff:
  "(d, m, y, rest) \<in> set (re_dmY s) \<longleftrightarrow>
     s = d @ 46 # m @ 46 # y @ rest \<and> day_text d \<and> month_text m \<and> year_text y"
  unfolding re_dmY_def
  by (auto simp: set_list_bind re_d_iff re_m_iff re_dot_iff re_Y_iff)


lemma day_text_no_dot: "day_text d \<Longrightarrow> 46 \<notin> set d"
  using dot_not_decimal by (auto simp: day_text_def between_def split: list.splits)

lemma month_text_no_dot: "month_text m \<Longrightarrow> 46 \<notin> set m"
  by (auto simp: month_text_def between_def split: list.splits)

lemma field_unique:
  "d @ 46 # r = d' @ 46 # r' \<Longrightarrow> (46::nat) \<notin> set d \<Longrightarrow> 46 \<notin> set d' \<Longrightarrow> d = d' \<and> r = r'"
proof (induction d arbitrary: d')
  case Nil
  then show ?case by (cases d') auto
next
  case (Cons a d)
  then show ?case by (cases d') auto
qed

lemma re_dmY_unique:
  assumes "(d, m, y, rest) \<in> set (re_dmY s)" and "(d', m', y', rest') \<in> set (re_dmY s)"
  shows "d' = d \<and> m' = m \<and> y' = y \<and> rest' = rest"
proof -
  from assms have a: "s = d @ 46 # m @ 46 # y @ rest" "day_text d" "month_text m" "year_text y"
    and b: "s = d' @ 46 # m' @ 46 # y' @ rest'" "day_text d'" "month_text m'" "year_text y'"
    by (simp_all add: re_dmY_iff)
  from a(1) b(1) have "d @ 46 # (m @ 46 # y @ rest) = d' @ 46 # (m' @ 46 # y' @ rest')" by simp
  from field_unique [OF this day_text_no_dot [OF a(2)] day_text_no_dot [OF b(2)]]
  have d: "d = d'" and 1: "m @ 46 # (y @ rest) = m' @ 46 # (y' @ rest')" by simp_all
  from field_unique [OF 1 month_text_no_dot [OF a(3)] month_text_no_dot [OF b(3)]]
  have m: "m = m'" and 2: "y @ rest = y' @ rest'" by simp_all
  from a(4) b(4) have "length y = length y'" by (simp add: year_text_def)
  with 2 have "y = y' \<and> rest = rest'" by simp
  with d m show ?thesis by simp
qed

lemma strptime_iff:
  "(\<exists>dt. strptime raw = Inr dt) \<longleftrightarrow>
     (\<exists>d m y. raw = d @ 46 # m @ 46 # y \<and> day_text d \<and> month_text m \<and> year_text y
        \<and> valid_date \<lparr>year = int_of_group y, month = int_of_group m, day = int_of_group d\<rparr>)"
proof
  assume "\<exists>dt. strptime raw = Inr dt"
  then obtain dt where ok: "strptime raw = Inr dt" by blast
  then obtain d m y rest ms where h: "re_dmY raw = (d, m, y, rest) # ms"
    by (cases "re_dmY raw") (auto simp: strptime_def)
  with ok have r: "rest = []"
    and dn: "date_new (int_of_group y) (int_of_group m) (int_of_group d) = Inr dt"
    by (auto simp: strptime_def split: if_splits)
  from h have "(d, m, y, rest) \<in> set (re_dmY raw)" by simp
  with r have "raw = d @ 46 # m @ 46 # y" "day_text d" "month_text m" "year_text y"
    by (simp_all add: re_dmY_iff)
  moreover from date_new_Inr [OF dn]
  have "valid_date \<lparr>year = int_of_group y, month = int_of_group m, day = int_of_group d\<rparr>"
    by blast
  ultimately show "\<exists>d m y. raw = d @ 46 # m @ 46 # y \<and> day_text d \<and> month_text m \<and> year_text y
        \<and> valid_date \<lparr>year = int_of_group y, month = int_of_group m, day = int_of_group d\<rparr>"
    by blast
next
  assume "\<exists>d m y. raw = d @ 46 # m @ 46 # y \<and> day_text d \<and> month_text m \<and> year_text y
        \<and> valid_date \<lparr>year = int_of_group y, month = int_of_group m, day = int_of_group d\<rparr>"
  then obtain d m y where a: "raw = d @ 46 # m @ 46 # y" "day_text d" "month_text m" "year_text y"
    and v: "valid_date \<lparr>year = int_of_group y, month = int_of_group m, day = int_of_group d\<rparr>"
    by blast
  from a have mem: "(d, m, y, []) \<in> set (re_dmY raw)" by (simp add: re_dmY_iff)
  then obtain x ms where h: "re_dmY raw = x # ms" by (cases "re_dmY raw") auto
  obtain d' m' y' rest' where x: "x = (d', m', y', rest')" by (cases x) auto
  with h have "(d', m', y', rest') \<in> set (re_dmY raw)" by simp
  from re_dmY_unique [OF mem this] x h have "re_dmY raw = (d, m, y, []) # ms" by simp
  with date_new_valid [OF v] show "\<exists>dt. strptime raw = Inr dt"
    by (simp add: strptime_def)
qed


lemma split_dots_nonempty: "split_dots s \<noteq> []"
  by (induction s) (auto split: list.splits)

lemma split_dots_no_dot: "46 \<notin> set xs \<Longrightarrow> split_dots xs = [xs]"
  by (induction xs) auto

lemma split_dots_append:
  "46 \<notin> set xs \<Longrightarrow> split_dots (xs @ 46 # rest) = xs # split_dots rest"
  by (induction xs) auto

lemma split_dots_fields: "f \<in> set (split_dots s) \<Longrightarrow> 46 \<notin> set f"
proof (induction s arbitrary: f)
  case Nil
  then show ?case by simp
next
  case (Cons c cs)
  then show ?case
    by (cases "split_dots cs") (auto simp: split_dots_nonempty split: if_splits)
qed

lemma join_Cons_Cons: "join sep ((c # f) # fs) = c # join sep (f # fs)"
  by (cases fs) simp_all

lemma split_dots_join: "join [46] (split_dots s) = s"
proof (induction s)
  case Nil
  then show ?case by simp
next
  case (Cons c cs)
  obtain f fs where f: "split_dots cs = f # fs"
    using split_dots_nonempty [of cs] by (cases "split_dots cs") auto
  with Cons show ?case by (simp add: join_Cons_Cons)
qed

lemma split_dots_three:
  assumes "split_dots raw = [d, m, y]"
  shows "raw = d @ 46 # m @ 46 # y \<and> 46 \<notin> set d \<and> 46 \<notin> set m \<and> 46 \<notin> set y"
proof -
  from split_dots_join [of raw] assms have "raw = d @ 46 # m @ 46 # y" by simp
  moreover from split_dots_fields [of _ raw] assms
  have "46 \<notin> set d" "46 \<notin> set m" "46 \<notin> set y" by simp_all
  ultimately show ?thesis by simp
qed

lemma digit_of_ascii: "ascii_digit a \<Longrightarrow> digit_of a = int a - 48"
  by (simp add: digit_of_def ascii_digit_def decimal_value_ascii)

lemma ascii_digit_decimal: "ascii_digit a \<Longrightarrow> isdecimal_char a"
  by (simp add: isdecimal_char_def ascii_digit_def decimal_value_ascii)

lemma decimal_plain: "isdecimal_char a \<Longrightarrow> ascii_digit a \<or> a = 46 \<Longrightarrow> ascii_digit a"
  using dot_not_decimal by auto

lemma int_of_group_1: "a \<noteq> 32 \<Longrightarrow> int_of_group [a] = digit_of a"
  by (simp add: int_of_group_def)

lemma int_of_group_2: "a \<noteq> 32 \<Longrightarrow> int_of_group [a, b] = 10 * digit_of a + digit_of b"
  by (simp add: int_of_group_def)

lemma day_text_ascii:
  assumes "d \<noteq> []" "length d \<le> 2" "list_all ascii_digit d"
    and "1 \<le> int_of_group d" "int_of_group d \<le> 31"
  shows "day_text d"
proof -
  from assms(1,2) consider a where "d = [a]" | a b where "d = [a, b]"
    by (cases d rule: re_d.cases) auto
  then show ?thesis
  proof cases
    case 1
    with assms(3,4) show ?thesis
      by (simp add: day_text_def between_def int_of_group_1 digit_of_ascii ascii_digit_def)
  next
    case 2
    with assms(3) have ab: "ascii_digit a" "ascii_digit b" by simp_all
    then have "a \<noteq> 32" by (simp add: ascii_digit_def)
    with 2 ab assms(4,5) have v: "1 \<le> 10 * (int a - 48) + (int b - 48)"
      "10 * (int a - 48) + (int b - 48) \<le> 31"
      by (simp_all add: int_of_group_2 digit_of_ascii)
    from ab v have "(a = 51 \<and> between 48 49 b) \<or> between 49 50 a \<or> (a = 48 \<and> between 49 57 b)"
      unfolding between_def ascii_digit_def by presburger
    with 2 ab show ?thesis by (auto simp: day_text_def ascii_digit_decimal)
  qed
qed

lemma month_text_ascii:
  assumes "m \<noteq> []" "length m \<le> 2" "list_all ascii_digit m"
    and "1 \<le> int_of_group m" "int_of_group m \<le> 12"
  shows "month_text m"
proof -
  from assms(1,2) consider a where "m = [a]" | a b where "m = [a, b]"
    by (cases m rule: re_d.cases) auto
  then show ?thesis
  proof cases
    case 1
    with assms(3,4) show ?thesis
      by (simp add: month_text_def between_def int_of_group_1 digit_of_ascii ascii_digit_def)
  next
    case 2
    with assms(3) have ab: "ascii_digit a" "ascii_digit b" by simp_all
    then have "a \<noteq> 32" by (simp add: ascii_digit_def)
    with 2 ab assms(4,5) have v: "1 \<le> 10 * (int a - 48) + (int b - 48)"
      "10 * (int a - 48) + (int b - 48) \<le> 12"
      by (simp_all add: int_of_group_2 digit_of_ascii)
    from ab v have "(a = 49 \<and> between 48 50 b) \<or> (a = 48 \<and> between 49 57 b)"
      unfolding between_def ascii_digit_def by presburger
    with 2 show ?thesis by (auto simp: month_text_def)
  qed
qed


lemma spec_date_text_accepted:
  assumes "spec_date_text raw"
  shows "\<exists>d m y. raw = d @ 46 # m @ 46 # y \<and> day_text d \<and> month_text m \<and> year_text y
        \<and> valid_date \<lparr>year = int_of_group y, month = int_of_group m, day = int_of_group d\<rparr>"
proof -
  from assms obtain d m y where sp: "split_dots raw = [d, m, y]"
    and d: "d \<noteq> []" "length d \<le> 2" "list_all ascii_digit d"
    and m: "m \<noteq> []" "length m \<le> 2" "list_all ascii_digit m"
    and y: "length y = 4" "list_all ascii_digit y"
    and v: "valid_date \<lparr>year = int_of_group y, month = int_of_group m, day = int_of_group d\<rparr>"
    by (auto simp: spec_date_text_def split: list.splits)
  from v have mv: "1 \<le> int_of_group m" "int_of_group m \<le> 12"
    and dv: "1 \<le> int_of_group d" "int_of_group d \<le> days_in_month (int_of_group y) (int_of_group m)"
    by (simp_all add: valid_date_def)
  from days_in_month_bounds [OF mv, of "int_of_group y"] dv have "int_of_group d \<le> 31" by simp
  with d dv have "day_text d" by (simp add: day_text_ascii)
  moreover from m mv have "month_text m" by (rule month_text_ascii)
  moreover from y have "year_text y"
    by (auto simp: year_text_def list_all_iff ascii_digit_decimal)
  moreover from split_dots_three [OF sp] have "raw = d @ 46 # m @ 46 # y" by simp
  ultimately show ?thesis using v by blast
qed

lemma accepted_spec_date_text:
  assumes p: "plain_text raw" and r: "raw = d @ 46 # m @ 46 # y"
    and d: "day_text d" and m: "month_text m" and y: "year_text y"
    and v: "valid_date \<lparr>year = int_of_group y, month = int_of_group m, day = int_of_group d\<rparr>"
  shows "spec_date_text raw"
proof -
  have nd: "46 \<notin> set d" by (rule day_text_no_dot [OF d])
  have nm: "46 \<notin> set m" by (rule month_text_no_dot [OF m])
  have ny: "46 \<notin> set y" using y dot_not_decimal by (auto simp: year_text_def list_all_iff)
  have "split_dots raw = d # split_dots (m @ 46 # y)"
    unfolding r by (rule split_dots_append [OF nd])
  also have "split_dots (m @ 46 # y) = m # split_dots y" by (rule split_dots_append [OF nm])
  also have "split_dots y = [y]" by (rule split_dots_no_dot [OF ny])
  finally have sp: "split_dots raw = [d, m, y]" .
  from p r nd nm ny have a: "list_all ascii_digit d" "list_all ascii_digit m"
    "list_all ascii_digit y"
    by (auto simp: plain_text_def list_all_iff)
  from d have ld: "d \<noteq> []" "length d \<le> 2" by (auto simp: day_text_def split: list.splits)
  from m have lm: "m \<noteq> []" "length m \<le> 2" by (auto simp: month_text_def split: list.splits)
  from y have ly: "length y = 4" by (simp add: year_text_def)
  from sp a ld lm ly v show ?thesis by (simp add: spec_date_text_def)
qed

lemma lit_date4: "lit ''29.02.2021'' = [50, 57, 46, 48, 50, 46, 50, 48, 50, 49]"
  by (simp add: lit_def)

lemma lit_date5: "lit '' 1.01.2020'' = [32, 49, 46, 48, 49, 46, 50, 48, 50, 48]"
  by (simp add: lit_def)

lemma strptime_2021:
  "strptime (lit ''29.02.2021'') = Inl (ValueError ''day is out of range for month'')"
  by (simp add: lit_date4 strptime_def re_dmY_def between_def re_Y_def dec_ascii int_of_group_def
      digit_of_def decimal_value_ascii date_new_def days_in_month_def is_leap_def)

lemma strptime_padded:
  "strptime (lit '' 1.01.2020'') = Inr \<lparr>year = 2020, month = 1, day = 1\<rparr>"
  by (simp add: lit_date5 strptime_def re_dmY_def between_def re_Y_def dec_ascii int_of_group_def
      digit_of_def decimal_value_ascii date_new_def days_in_month_def is_leap_def)

text \<open>
  C8, as the code has it. Constructing a birthday either succeeds, keeping the text, or
  fails with the validation error. It succeeds exactly when the text is a day, a full
  stop, a month, a full stop and a year, in the forms the parser's expression allows
  (\<open>day_text\<close>, \<open>month_text\<close>, \<open>year_text\<close>), whose values name a date of the
  calendar with a year from 1 to 9999. Every text the specification describes is
  accepted, and among the texts written with ASCII digits and full stops only, these are
  the only ones accepted. 29.02.2021 fails and 29.02.2020 succeeds.
\<close>

theorem Birthday_accepts_iff:
  "(Birthday raw = Inr raw
      \<or> Birthday raw = Inl (ValueError ''Invalid date format. Use DD.MM.YYYY''))
   \<and> (Birthday raw = Inr raw \<longleftrightarrow>
        (\<exists>d m y. raw = d @ 46 # m @ 46 # y \<and> day_text d \<and> month_text m \<and> year_text y
           \<and> valid_date
               \<lparr>year = int_of_group y, month = int_of_group m, day = int_of_group d\<rparr>))
   \<and> (spec_date_text raw \<longrightarrow> Birthday raw = Inr raw)
   \<and> (plain_text raw \<longrightarrow> (Birthday raw = Inr raw \<longleftrightarrow> spec_date_text raw))
   \<and> Birthday (lit ''29.02.2021'') = Inl (ValueError ''Invalid date format. Use DD.MM.YYYY'')
   \<and> Birthday (lit ''29.02.2020'') = Inr (lit ''29.02.2020'')"
proof -
  let ?accepted = "\<exists>d m y. raw = d @ 46 # m @ 46 # y \<and> day_text d \<and> month_text m \<and> year_text y
           \<and> valid_date
               \<lparr>year = int_of_group y, month = int_of_group m, day = int_of_group d\<rparr>"
  have a: "Birthday raw = Inr raw \<longleftrightarrow> ?accepted"
    by (simp only: Birthday_iff_strptime strptime_iff)
  have b: "spec_date_text raw \<longrightarrow> Birthday raw = Inr raw"
    using a spec_date_text_accepted [of raw] by blast
  have c: "plain_text raw \<longrightarrow> (Birthday raw = Inr raw \<longleftrightarrow> spec_date_text raw)"
    using a b accepted_spec_date_text [of raw] by blast
  have e1: "Birthday (lit ''29.02.2021'')
      = Inl (ValueError ''Invalid date format. Use DD.MM.YYYY'')"
    by (simp add: Birthday_def strptime_2021)
  have e2: "Birthday (lit ''29.02.2020'') = Inr (lit ''29.02.2020'')"
    by (simp add: Birthday_def strptime_2020)
  from Birthday_total [of raw] a b c e1 e2 show ?thesis by blast
qed

theorem Birthday_accepts_iff_witness:
  "spec_date_text (lit ''29.02.2020'') \<and> plain_text (lit ''29.02.2020'')
   \<and> Birthday (lit ''29.02.2020'') = Inr (lit ''29.02.2020'')"
proof -
  have s: "spec_date_text (lit ''29.02.2020'')"
    by (simp add: lit_date2 spec_date_text_def ascii_digit_def int_of_group_def digit_of_def
        decimal_value_ascii valid_date_def days_in_month_def is_leap_def)
  have p: "plain_text (lit ''29.02.2020'')"
    by (simp add: lit_date2 plain_text_def ascii_digit_def)
  from Birthday_accepts_iff [of "lit ''29.02.2020''"] s p show ?thesis by blast
qed

text \<open>
  C8, as stated, fails: the text of a space, 1.01.2020 is accepted, although its day
  field is not a number of one or two digits.
\<close>

theorem Birthday_padded_day_counterexample:
  "Birthday (lit '' 1.01.2020'') = Inr (lit '' 1.01.2020'')
   \<and> \<not> spec_date_text (lit '' 1.01.2020'')"
proof -
  have "\<not> spec_date_text (lit '' 1.01.2020'')"
    by (simp add: lit_date5 spec_date_text_def ascii_digit_def)
  then show ?thesis by (simp add: Birthday_def strptime_padded)
qed

end
